theory Spec2Isabelle
  imports Main "HOL-Library.Sublist"
begin

section \<open>Errors\<close>

text \<open>
  Python exceptions are values. Every \<^verbatim>\<open>raise\<close> of the source, and every exception
  of a library call or of a collaborator outside the repository, is an \<open>Inl\<close> result;
  the string is the message. \<open>OtherError\<close> stands for the exceptions this code never
  raises itself (a connection failure of the remote client, an error of the wrapped
  callable).
\<close>

datatype pyerr =
    TypeError string
  | AttributeError string
  | IndexError string
  | ValueError string
  | OtherError string

section \<open>Collection utilities: nested and flat dictionaries\<close>

text \<open>
  The classes of dictionary in the model: \<^verbatim>\<open>dict\<close> itself and its three
  subclasses in \<^verbatim>\<open>collections\<close>; a subclass defined elsewhere is outside the
  model. Both functions read the class of their argument (\<^verbatim>\<open>typ = type(dct)\<close>) and
  build what they return with it.
\<close>

datatype dict_class = DictClass | OrderedDictClass | DefaultDictClass | CounterClass

text \<open>
  A Python value is either a dictionary (\<^verbatim>\<open>isinstance(v, dict)\<close>, of any of the
  classes) or anything else, a leaf: an integer, a tuple, or an atom, which stands for
  any other object. A dictionary is its class and the list of its items in insertion
  order, the order \<^verbatim>\<open>dct.items()\<close> iterates in; a real dictionary never holds a key
  twice (\<open>dict_inv\<close> below), and its keys are hashable values, which the model never
  has to test: every key it stores was a key, or a part of one, before. Keys are
  compared with \<open>=\<close>, the counterpart of Python's hash-and-\<^verbatim>\<open>==\<close> on keys. A flat
  dictionary has tuples as its keys, each the list of its members; its values may be
  any Python value.
\<close>

datatype 'a pyval =
    is_Leaf: Leaf "'a pyleaf"
  | is_Dict: Dict dict_class "('a pyval \<times> 'a pyval) list"
and 'a pyleaf =
    Atom 'a
  | IntLeaf int
  | TupleLeaf "'a pyval list"

type_synonym 'a pydict = "('a pyval \<times> 'a pyval) list"
type_synonym 'a flatdict = "('a pyval list \<times> 'a pyval) list"

text \<open>
  \<^verbatim>\<open>hash(v)\<close> succeeds: a dictionary is not hashable, an integer is, a tuple is when
  all its members are, and for an atom the parameter \<open>h\<close> says so (a string is, a list
  is not).
\<close>

fun hashable :: "('a \<Rightarrow> bool) \<Rightarrow> 'a pyval \<Rightarrow> bool"
  and hashable_leaf :: "('a \<Rightarrow> bool) \<Rightarrow> 'a pyleaf \<Rightarrow> bool" where
  "hashable h (Leaf l) = hashable_leaf h l"
| "hashable h (Dict c d) = False"
| "hashable_leaf h (Atom a) = h a"
| "hashable_leaf h (IntLeaf n) = True"
| "hashable_leaf h (TupleLeaf xs) = list_all (hashable h) xs"

text \<open>
  \<^verbatim>\<open>d[k] = v\<close>: an existing key keeps its place and gets the new value, a new key goes
  to the end.
\<close>

fun dict_setitem :: "('a \<times> 'b) list \<Rightarrow> 'a \<Rightarrow> 'b \<Rightarrow> ('a \<times> 'b) list" where
  "dict_setitem [] k v = [(k, v)]"
| "dict_setitem ((k', v') # d) k v =
     (if k' = k then (k', v) # d else (k', v') # dict_setitem d k v)"

text \<open>\<^verbatim>\<open>dict(items)\<close>: a dictionary built from a list of pairs, a later pair winning.\<close>

definition dict_from_items :: "('a \<times> 'b) list \<Rightarrow> ('a \<times> 'b) list" where
  "dict_from_items items = foldl (\<lambda>d (k, v). dict_setitem d k v) [] items"

text \<open>
  \<^verbatim>\<open>Counter(items)\<close> counts the members of the list: each pair \<^verbatim>\<open>(key, value)\<close>
  becomes a key of the counter, a tuple of two members, and is mapped to the number of
  times it occurs.
\<close>

definition counter_get :: "'a flatdict \<Rightarrow> 'a pyval list \<Rightarrow> int" where
  "counter_get d key = (case map_of d key of Some (Leaf (IntLeaf n)) \<Rightarrow> n | _ \<Rightarrow> 0)"

definition counter_from_items :: "'a flatdict \<Rightarrow> 'a flatdict" where
  "counter_from_items items =
     foldl (\<lambda>d (k, v).
              dict_setitem d [Leaf (TupleLeaf k), v]
                (Leaf (IntLeaf (counter_get d [Leaf (TupleLeaf k), v] + 1))))
       [] items"

text \<open>
  \<^verbatim>\<open>typ(items)\<close>, by class, for a list of pairs whose first members are tuples.
  \<^verbatim>\<open>dict\<close> and \<^verbatim>\<open>OrderedDict\<close> build the dictionary of the pairs. \<^verbatim>\<open>defaultdict\<close>
  takes its first argument for the default factory and raises \<^verbatim>\<open>TypeError\<close>, a list
  being neither callable nor \<^verbatim>\<open>None\<close>. \<^verbatim>\<open>Counter\<close> counts the pairs, which it has
  to hash, and raises \<^verbatim>\<open>TypeError\<close> when a value is not hashable.
\<close>

definition class_from_items ::
  "('a \<Rightarrow> bool) \<Rightarrow> dict_class \<Rightarrow> 'a flatdict \<Rightarrow> pyerr + 'a flatdict" where
  "class_from_items h typ items =
     (case typ of
        DictClass \<Rightarrow> Inr (dict_from_items items)
      | OrderedDictClass \<Rightarrow> Inr (dict_from_items items)
      | DefaultDictClass \<Rightarrow> Inl (TypeError ''first argument must be callable or None'')
      | CounterClass \<Rightarrow>
          (if list_all (\<lambda>(k, v). hashable h v) items then Inr (counter_from_items items)
           else Inl (TypeError ''unhashable type'')))"

text \<open>
  \<^verbatim>\<open>dict_to_flatdict(dct, _parent)\<close>, for a dictionary of class \<open>typ\<close> with the items
  \<open>dct\<close>. The last argument is \<open>None\<close> when the caller leaves it out;
  \<^verbatim>\<open>_parent or tuple()\<close> turns \<open>None\<close> (and the empty tuple) into the empty tuple.
  \<open>dict_to_flatdict_items\<close> is the \<^verbatim>\<open>for k, v in dct.items()\<close> loop, returning the
  list \<^verbatim>\<open>items\<close>: a dictionary value contributes the items of the recursive call,
  which builds its result with the class of that value, any other value one item under
  the key \<^verbatim>\<open>parent + (k,)\<close>. An exception of a recursive call or of \<^verbatim>\<open>typ(items)\<close>
  ends the function. The recursion is as deep as the dictionary is nested; the limits
  the interpreter sets on the depth of recursion and on memory are not modelled.
\<close>

fun dict_to_flatdict ::
  "('a \<Rightarrow> bool) \<Rightarrow> dict_class \<Rightarrow> 'a pydict \<Rightarrow> 'a pyval list option
     \<Rightarrow> pyerr + (dict_class \<times> 'a flatdict)"
  and dict_to_flatdict_items ::
  "('a \<Rightarrow> bool) \<Rightarrow> 'a pydict \<Rightarrow> 'a pyval list \<Rightarrow> pyerr + 'a flatdict" where
  "dict_to_flatdict h typ dct parent0 =
     (case dict_to_flatdict_items h dct (case parent0 of None \<Rightarrow> [] | Some p \<Rightarrow> p) of
        Inl e \<Rightarrow> Inl e
      | Inr items \<Rightarrow>
          (case class_from_items h typ items of
             Inl e \<Rightarrow> Inl e
           | Inr flat \<Rightarrow> Inr (typ, flat)))"
| "dict_to_flatdict_items h [] parent = Inr []"
| "dict_to_flatdict_items h ((k, v) # rest) parent =
     (case (case v of
              Dict c sub \<Rightarrow>
                (case dict_to_flatdict h c sub (Some (parent @ [k])) of
                   Inl e \<Rightarrow> Inl e
                 | Inr (c', flat) \<Rightarrow> Inr flat)
            | Leaf l \<Rightarrow> Inr [(parent @ [k], v)]) of
        Inl e \<Rightarrow> Inl e
      | Inr new_items \<Rightarrow>
          (case dict_to_flatdict_items h rest parent of
             Inl e \<Rightarrow> Inl e
           | Inr more \<Rightarrow> Inr (new_items @ more)))"

declare dict_to_flatdict.simps [simp del]

text \<open>
  \<^verbatim>\<open>leaf[k] = value\<close> on a value that is not a dictionary. An integer and a tuple
  raise \<^verbatim>\<open>TypeError\<close>. An atom may accept the assignment (a list does, for an index
  in range): the parameter \<open>setitem\<close> gives the atom after the assignment, or the
  exception.
\<close>

definition leaf_setitem ::
  "('a \<Rightarrow> 'a pyval \<Rightarrow> 'a pyval \<Rightarrow> pyerr + 'a) \<Rightarrow> 'a pyleaf \<Rightarrow> 'a pyval \<Rightarrow> 'a pyval
     \<Rightarrow> pyerr + 'a pyleaf" where
  "leaf_setitem setitem l k val =
     (case l of
        Atom a \<Rightarrow> (case setitem a k val of Inl e \<Rightarrow> Inl e | Inr a' \<Rightarrow> Inr (Atom a'))
      | IntLeaf n \<Rightarrow> Inl (TypeError ''object does not support item assignment'')
      | TupleLeaf xs \<Rightarrow> Inl (TypeError ''object does not support item assignment''))"

text \<open>
  The body of the outer loop of \<^verbatim>\<open>flatdict_to_dict\<close> for one item, on the dictionary
  \<^verbatim>\<open>current_dict\<close> refers to: the inner loop walks the keys of
  \<^verbatim>\<open>key_tuple[:-1]\<close>, \<^verbatim>\<open>setdefault\<close> returning the value already stored under a
  key or storing and returning a new empty dictionary \<^verbatim>\<open>typ()\<close>, which each of the
  four classes builds, and then \<^verbatim>\<open>current_dict[key_tuple[-1]] = value\<close> stores the
  value. The source mutates the object it has reached through the reference; the model
  returns the enclosing dictionary with the changed value in the same place.

  \<^item> An empty \<^verbatim>\<open>key_tuple\<close> passes the inner loop untouched and fails at
    \<^verbatim>\<open>key_tuple[-1]\<close> with \<^verbatim>\<open>IndexError\<close>.
  \<^item> When \<^verbatim>\<open>setdefault\<close> returns a leaf and further prefix keys follow, the next
    \<^verbatim>\<open>setdefault\<close> fails with \<^verbatim>\<open>AttributeError\<close>: no leaf has that method (an
    object other than a dictionary that has it is outside the model). When the leaf
    is reached by the last prefix key, the final assignment is an assignment into the
    leaf.
  \<^item> Values that the caller passes in the flat dictionary are taken by value; two keys
    sharing one mutable object are outside the model.
\<close>

fun flatdict_set_path ::
  "('a \<Rightarrow> 'a pyval \<Rightarrow> 'a pyval \<Rightarrow> pyerr + 'a) \<Rightarrow> dict_class \<Rightarrow> 'a pydict \<Rightarrow> 'a pyval list
     \<Rightarrow> 'a pyval \<Rightarrow> pyerr + 'a pydict" where
  "flatdict_set_path setitem typ current_dict [] val =
     Inl (IndexError ''tuple index out of range'')"
| "flatdict_set_path setitem typ current_dict [k] val = Inr (dict_setitem current_dict k val)"
| "flatdict_set_path setitem typ current_dict (prefix_key # k # ks) val =
     (case map_of current_dict prefix_key of
        None \<Rightarrow>
          (case flatdict_set_path setitem typ [] (k # ks) val of
             Inl e \<Rightarrow> Inl e
           | Inr sub \<Rightarrow> Inr (current_dict @ [(prefix_key, Dict typ sub)]))
      | Some (Dict c sub) \<Rightarrow>
          (case flatdict_set_path setitem typ sub (k # ks) val of
             Inl e \<Rightarrow> Inl e
           | Inr sub' \<Rightarrow> Inr (dict_setitem current_dict prefix_key (Dict c sub')))
      | Some (Leaf l) \<Rightarrow>
          (if ks = [] then
             (case leaf_setitem setitem l k val of
                Inl e \<Rightarrow> Inl e
              | Inr l' \<Rightarrow> Inr (dict_setitem current_dict prefix_key (Leaf l')))
           else Inl (AttributeError ''object has no attribute setdefault'')))"

text \<open>
  \<^verbatim>\<open>for key_tuple, value in dct.items()\<close>, starting from the empty \<^verbatim>\<open>result\<close>, a
  dictionary of the class of the argument; an exception ends the loop and the function.
\<close>

fun flatdict_to_dict_loop ::
  "('a \<Rightarrow> 'a pyval \<Rightarrow> 'a pyval \<Rightarrow> pyerr + 'a) \<Rightarrow> dict_class \<Rightarrow> 'a flatdict \<Rightarrow> 'a pydict
     \<Rightarrow> pyerr + 'a pydict" where
  "flatdict_to_dict_loop setitem typ [] result = Inr result"
| "flatdict_to_dict_loop setitem typ ((key_tuple, val) # rest) result =
     (case flatdict_set_path setitem typ result key_tuple val of
        Inl e \<Rightarrow> Inl e
      | Inr result' \<Rightarrow> flatdict_to_dict_loop setitem typ rest result')"

definition flatdict_to_dict ::
  "('a \<Rightarrow> 'a pyval \<Rightarrow> 'a pyval \<Rightarrow> pyerr + 'a) \<Rightarrow> dict_class \<Rightarrow> 'a flatdict
     \<Rightarrow> pyerr + (dict_class \<times> 'a pydict)" where
  "flatdict_to_dict setitem typ dct =
     (case flatdict_to_dict_loop setitem typ dct [] of
        Inl e \<Rightarrow> Inl e
      | Inr result \<Rightarrow> Inr (typ, result))"

section \<open>Collection utilities: extracting instances\<close>

text \<open>
  The argument \<^verbatim>\<open>types\<close> of \<^verbatim>\<open>extract_instances\<close> is a single type or a tuple of
  types. \<^verbatim>\<open>ensure_iterable\<close> returns a sequence as it is
  (\<^verbatim>\<open>isinstance(obj, Sequence)\<close>) and wraps anything else in a one-element list. A
  set of types, which it would return as it is too, has no order of iteration and no
  \<^verbatim>\<open>types[0]\<close>, and is left out.
\<close>

datatype 'a one_or_seq = Single 'a | Seq "'a list"

definition ensure_iterable :: "'a one_or_seq \<Rightarrow> 'a list" where
  "ensure_iterable obj = (case obj of Seq xs \<Rightarrow> xs | Single x \<Rightarrow> [x])"

text \<open>
  \<^verbatim>\<open>ret = defaultdict(list)\<close>: a dictionary whose subscript \<^verbatim>\<open>ret[k]\<close> gives the
  empty list for a key it does not hold. \<^verbatim>\<open>ret[k].append(obj)\<close> stores the extended
  list, under a new key at the end.
\<close>

definition defaultdict_getitem :: "('t \<times> 'o list) list \<Rightarrow> 't \<Rightarrow> 'o list" where
  "defaultdict_getitem ret k = (case map_of ret k of None \<Rightarrow> [] | Some xs \<Rightarrow> xs)"

definition defaultdict_append ::
  "('t \<times> 'o list) list \<Rightarrow> 't \<Rightarrow> 'o \<Rightarrow> ('t \<times> 'o list) list" where
  "defaultdict_append ret k obj = dict_setitem ret k (defaultdict_getitem ret k @ [obj])"

text \<open>The function returns a list or the \<^verbatim>\<open>defaultdict\<close> itself.\<close>

datatype ('t, 'o) extracted = InstanceList "'o list" | InstanceDict "('t \<times> 'o list) list"

text \<open>
  \<^verbatim>\<open>isinstance\<close> is a parameter: the relation between objects and types belongs to
  the Python runtime. \<open>extract_types_loop\<close> is the inner loop
  \<^verbatim>\<open>for type_ in types\<close> for one object, \<open>extract_objects_loop\<close> the outer loop
  \<^verbatim>\<open>for o in objects\<close>. With \<^verbatim>\<open>len(types) == 1\<close> the function returns
  \<^verbatim>\<open>ret[types[0]]\<close>, otherwise \<^verbatim>\<open>ret\<close>.
\<close>

fun extract_types_loop ::
  "('o \<Rightarrow> 't \<Rightarrow> bool) \<Rightarrow> 'o \<Rightarrow> 't list \<Rightarrow> ('t \<times> 'o list) list \<Rightarrow> ('t \<times> 'o list) list" where
  "extract_types_loop isinstance obj [] ret = ret"
| "extract_types_loop isinstance obj (ty # types) ret =
     extract_types_loop isinstance obj types
       (if isinstance obj ty then defaultdict_append ret ty obj else ret)"

fun extract_objects_loop ::
  "('o \<Rightarrow> 't \<Rightarrow> bool) \<Rightarrow> 'o list \<Rightarrow> 't list \<Rightarrow> ('t \<times> 'o list) list \<Rightarrow> ('t \<times> 'o list) list" where
  "extract_objects_loop isinstance [] types ret = ret"
| "extract_objects_loop isinstance (obj # objects) types ret =
     extract_objects_loop isinstance objects types (extract_types_loop isinstance obj types ret)"

definition extract_instances ::
  "('o \<Rightarrow> 't \<Rightarrow> bool) \<Rightarrow> 'o list \<Rightarrow> 't one_or_seq \<Rightarrow> ('t, 'o) extracted" where
  "extract_instances isinstance objects types =
     (let types' = ensure_iterable types;
          ret = extract_objects_loop isinstance objects types' []
      in (case types' of
            [t] \<Rightarrow> InstanceList (defaultdict_getitem ret t)
          | _ \<Rightarrow> InstanceDict ret))"

section \<open>Collection utilities: batched iteration\<close>

text \<open>
  An iterator is its \<^verbatim>\<open>next\<close> operation on an explicit state: \<open>None\<close> is
  \<^verbatim>\<open>StopIteration\<close>, \<open>Some (x, s')\<close> hands out \<open>x\<close> and moves to \<open>s'\<close>. The state
  may be anything, so the iterator may be endless.

  \<^verbatim>\<open>itertools.islice(it, size)\<close> draws at most \<open>size\<close> elements from \<open>it\<close>, and
  \<^verbatim>\<open>tuple(...)\<close> collects them. With a stop of 0 it draws nothing. It accepts a stop
  between 0 and \<^verbatim>\<open>sys.maxsize\<close> and raises \<^verbatim>\<open>ValueError\<close> for any other
  integer; the check is in \<open>batched_iterable_next\<close>, where the stop is still a Python
  integer. \<^verbatim>\<open>sys.maxsize\<close> is a constant of the platform (\<open>2 ^ 63 - 1\<close> on a 64-bit
  build) and is the parameter \<open>maxsize\<close>, a natural number.
\<close>

fun islice :: "('s \<Rightarrow> ('a \<times> 's) option) \<Rightarrow> nat \<Rightarrow> 's \<Rightarrow> 'a list \<times> 's" where
  "islice nxt 0 s = ([], s)"
| "islice nxt (Suc n) s =
     (case nxt s of
        None \<Rightarrow> ([], s)
      | Some (x, s') \<Rightarrow> (case islice nxt n s' of (xs, s'') \<Rightarrow> (x # xs, s'')))"

text \<open>
  \<^verbatim>\<open>batched_iterable\<close> is a generator. One resumption of its body runs one turn of
  \<^verbatim>\<open>while True\<close>: it takes the next slice, and either leaves the loop on an empty
  batch (the generator is finished: \<open>Inr None\<close>) or yields the batch
  (\<open>Inr (Some (batch, s'))\<close>, with the state the source iterator is left in).
\<close>

definition batched_iterable_next ::
  "nat \<Rightarrow> ('s \<Rightarrow> ('a \<times> 's) option) \<Rightarrow> int \<Rightarrow> 's \<Rightarrow> pyerr + ('a list \<times> 's) option" where
  "batched_iterable_next maxsize nxt bsize s =
     (if bsize < 0 \<or> int maxsize < bsize
      then Inl (ValueError
        ''Stop argument for islice() must be None or an integer: 0 <= x <= sys.maxsize.'')
      else (case islice nxt (nat bsize) s of
              (batch, s') \<Rightarrow> if batch = [] then Inr None else Inr (Some (batch, s'))))"

text \<open>\<^verbatim>\<open>iter(xs)\<close> for a list: the state is the part of the list not handed out yet.\<close>

definition list_next :: "'a list \<Rightarrow> ('a \<times> 'a list) option" where
  "list_next xs = (case xs of [] \<Rightarrow> None | x # rest \<Rightarrow> Some (x, rest))"

text \<open>
  The batches a consumer receives from \<^verbatim>\<open>batched_iterable(xs, size)\<close> over a finite
  sequence \<open>xs\<close>, in the order they are yielded: the generator is resumed until it
  finishes or raises.
\<close>

function batched_iterable :: "nat \<Rightarrow> 'a list \<Rightarrow> int \<Rightarrow> pyerr + 'a list list" where
  "batched_iterable maxsize xs bsize =
     (case batched_iterable_next maxsize list_next bsize xs of
        Inl e \<Rightarrow> Inl e
      | Inr None \<Rightarrow> Inr []
      | Inr (Some (batch, rest)) \<Rightarrow>
          (case batched_iterable maxsize rest bsize of
             Inl e \<Rightarrow> Inl e
           | Inr batches \<Rightarrow> Inr (batch # batches)))"
  by pat_completeness auto
termination
proof (relation "measure (\<lambda>(maxsize, xs, bsize). length xs)")
  show "wf (measure (\<lambda>(maxsize, xs, bsize). length xs))" by simp
next
  fix maxsize :: nat and xs :: "'a list" and bsize :: int and y x2
    and batch rest :: "'a list"
  assume step: "batched_iterable_next maxsize list_next bsize xs = Inr y" "y = Some x2"
    "(batch, rest) = x2"
  have slice: "islice list_next n zs = (take n zs, drop n zs)" for n and zs :: "'a list"
    by (induction n arbitrary: zs) (auto simp: list_next_def split: list.splits)
  from step have "batched_iterable_next maxsize list_next bsize xs = Inr (Some (batch, rest))"
    by simp
  then have "0 < bsize \<and> xs \<noteq> [] \<and> rest = drop (nat bsize) xs"
    by (auto simp: batched_iterable_next_def slice split: if_splits)
  then show "((maxsize, rest, bsize), (maxsize, xs, bsize))
      \<in> measure (\<lambda>(maxsize, xs, bsize). length xs)" by simp
qed

declare batched_iterable.simps [simp del]

section \<open>Variable access\<close>

text \<open>
  Modelled from the spec: the record the remote client returns for a variable, of which
  the source reads the field \<^verbatim>\<open>value\<close> (here \<open>var_value\<close>); its class is not
  among the source files. It is an ordinary object, so it is true in a condition, and
  \<^verbatim>\<open>variable.value if variable else default\<close> asks whether the lookup returned
  \<^verbatim>\<open>None\<close>.
\<close>

record variable =
  var_name :: string
  var_value :: string

text \<open>
  The remote client is a parameter: \<^verbatim>\<open>client.read_variable_by_name(name)\<close> acts on
  the state \<open>'w\<close> of the world outside and returns the variable, \<open>None\<close> when the
  service has no variable of that name, or raises. The adapters around the two
  functions (\<^verbatim>\<open>sync_compatible\<close>, \<^verbatim>\<open>inject_client\<close>,
  \<^verbatim>\<open>from_sync.call_soon_in_loop_thread(...).result()\<close>) choose the thread the call
  runs on and hand its outcome back unchanged; they are the identity here.
\<close>

definition get_variable_by_name ::
  "(string \<Rightarrow> 'w \<Rightarrow> (pyerr + variable option) \<times> 'w) \<Rightarrow> string \<Rightarrow> 'w
     \<Rightarrow> (pyerr + variable option) \<times> 'w" where
  "get_variable_by_name read_variable_by_name name w = read_variable_by_name name w"

definition variables_get ::
  "(string \<Rightarrow> 'w \<Rightarrow> (pyerr + variable option) \<times> 'w) \<Rightarrow> string \<Rightarrow> string option \<Rightarrow> 'w
     \<Rightarrow> (pyerr + string option) \<times> 'w" where
  "variables_get read_variable_by_name name dflt w =
     (case get_variable_by_name read_variable_by_name name w of
        (Inl e, w') \<Rightarrow> (Inl e, w')
      | (Inr variable, w') \<Rightarrow>
          (Inr (case variable of Some var \<Rightarrow> Some (var_value var) | None \<Rightarrow> dflt), w'))"

section \<open>Workflow definition and invocation\<close>

text \<open>
  The Python values that reach \<^verbatim>\<open>Flow\<close> as \<^verbatim>\<open>fn\<close> or as an attribute of a function:
  \<^verbatim>\<open>None\<close>, an integer, a string, or a function. A function object is what
  \<^verbatim>\<open>Flow\<close> reads of it: \<^verbatim>\<open>fn.__name__\<close>, \<^verbatim>\<open>inspect.getdoc(fn)\<close> (\<open>None\<close>
  without a docstring), \<^verbatim>\<open>fn.__globals__.get("__file__")\<close>, the bound arguments
  \<^verbatim>\<open>inspect.signature(fn).bind_partial(*args, **kwargs).arguments\<close>, the conversion of
  the arguments to the annotated types that the validation layer derives from the
  signature, the call itself, which acts on the world \<open>'w\<close> and returns or raises,
  and \<^verbatim>\<open>fn.__dict__\<close>, the attributes the function carries, by name. \<open>'a\<close> is the
  type of an argument list (positional and keyword arguments together).
\<close>

datatype ('a, 'p, 'r, 'w) pyobject =
    PyNone
  | PyInt int
  | PyStr string
  | PyFunction "('a, 'p, 'r, 'w) pyfunction"
and ('a, 'p, 'r, 'w) pyfunction =
    Function
      (fn_name: string)
      (fn_getdoc: "string option")
      (fn_file: "string option")
      (fn_bind_partial: "'a \<Rightarrow> pyerr + 'p")
      (fn_coerce: "'a \<Rightarrow> pyerr + 'a")
      (fn_call: "'a \<Rightarrow> 'w \<Rightarrow> (pyerr + 'r) \<times> 'w")
      (fn_dict: "(string \<times> ('a, 'p, 'r, 'w) pyobject) list")

text \<open>
  \<open>truthy\<close> is Python's truth value, which \<^verbatim>\<open>not fn\<close> tests; \<open>callable\<close> is
  \<^verbatim>\<open>callable(fn)\<close>.
\<close>

fun truthy :: "('a, 'p, 'r, 'w) pyobject \<Rightarrow> bool" where
  "truthy PyNone = False"
| "truthy (PyInt n) = (n \<noteq> 0)"
| "truthy (PyStr s) = (s \<noteq> [])"
| "truthy (PyFunction f) = True"

fun callable :: "('a, 'p, 'r, 'w) pyobject \<Rightarrow> bool" where
  "callable (PyFunction f) = True"
| "callable obj = False"

text \<open>\<^verbatim>\<open>a or b\<close> on optional strings: \<open>None\<close> and the empty string are false.\<close>

definition str_or :: "string option \<Rightarrow> string option \<Rightarrow> string option" where
  "str_or a b = (case a of None \<Rightarrow> b | Some s \<Rightarrow> if s = [] then b else Some s)"

text \<open>An optional string as a Python value.\<close>

definition py_of_str :: "string option \<Rightarrow> ('a, 'p, 'r, 'w) pyobject" where
  "py_of_str a = (case a of None \<Rightarrow> PyNone | Some s \<Rightarrow> PyStr s)"

text \<open>
  Modelled from the spec: \<^verbatim>\<open>pydantic.validate_arguments\<close>, a library outside the
  source files. The wrapped function, on every call, converts the arguments to the
  declared types, raises if that is impossible, and calls the function with the
  converted arguments. Name, documentation, signature and attributes are those of the
  function; the attributes the library adds to the wrapper for its own use are never
  read by \<^verbatim>\<open>Flow\<close> and are left out.
\<close>

definition validate_arguments ::
  "('a, 'p, 'r, 'w) pyfunction \<Rightarrow> ('a, 'p, 'r, 'w) pyfunction" where
  "validate_arguments f =
     Function (fn_name f) (fn_getdoc f) (fn_file f) (fn_bind_partial f) (fn_coerce f)
       (\<lambda>args w.
          case fn_coerce f args of
            Inl e \<Rightarrow> (Inl e, w)
          | Inr args' \<Rightarrow> fn_call f args' w)
       (fn_dict f)"

text \<open>
  \<^verbatim>\<open>update_wrapper(self, fn)\<close> sets \<^verbatim>\<open>__module__\<close>, \<^verbatim>\<open>__name__\<close>,
  \<^verbatim>\<open>__qualname__\<close>, \<^verbatim>\<open>__annotations__\<close>, \<^verbatim>\<open>__doc__\<close> and \<^verbatim>\<open>__wrapped__\<close> on
  the flow, none of which is a field below, and runs
  \<^verbatim>\<open>self.__dict__.update(fn.__dict__)\<close>: every attribute
  the function carries replaces the attribute of the same name that the flow has at
  that moment. \<open>updated_attr attrs key v\<close> is the attribute \<open>key\<close> after the call,
  when it was \<open>v\<close> before.
\<close>

definition updated_attr :: "(string \<times> 'o) list \<Rightarrow> string \<Rightarrow> 'o \<Rightarrow> 'o" where
  "updated_attr attrs key v = (case map_of attrs key of Some v' \<Rightarrow> v' | None \<Rightarrow> v)"

text \<open>
  The attributes \<^verbatim>\<open>__init__\<close> sets on a \<^verbatim>\<open>Flow\<close>. The first three are set before
  \<^verbatim>\<open>update_wrapper\<close> runs and may end up holding any value.
\<close>

record ('a, 'p, 'r, 'w, 'x, 's) flow =
  flow_name :: "('a, 'p, 'r, 'w) pyobject"
  flow_description :: "('a, 'p, 'r, 'w) pyobject"
  flow_fn :: "('a, 'p, 'r, 'w) pyobject"
  flow_version :: "string option"
  flow_executor :: "'x option"
  flow_tags :: "string set"
  flow_parameters :: 's

text \<open>
  Modelled from the spec: \<^verbatim>\<open>PrefectFuture\<close>, the run handle, whose class is not among
  the source files: it pairs the run identifier with the result and has no behaviour
  beyond exposing the two fields.
\<close>

record ('i, 'r) prefect_future =
  run_id :: 'i
  result :: 'r

text \<open>
  \<^verbatim>\<open>Flow.__init__\<close>, line by line: the two guards; \<^verbatim>\<open>self.name\<close>,
  \<^verbatim>\<open>self.description\<close> and \<^verbatim>\<open>self.fn\<close>; \<^verbatim>\<open>update_wrapper\<close>, which may replace
  the three; the version, from the file of the function \<^verbatim>\<open>fn\<close> that was passed in;
  the executor and the tags; and the parameter schema of \<^verbatim>\<open>self.fn\<close> as it is then.
  \<^verbatim>\<open>file_hash\<close> and \<^verbatim>\<open>parameter_schema\<close> are functions of the repository outside
  the source files and are parameters; either may raise. The messages of the two
  \<^verbatim>\<open>TypeError\<close>s are the source's without the quotes around \<^verbatim>\<open>fn\<close>. The last
  branch of the case is never reached: a callable value is a function.
\<close>

definition Flow_init ::
  "(string \<Rightarrow> pyerr + string) \<Rightarrow> (('a, 'p, 'r, 'w) pyobject \<Rightarrow> pyerr + 's)
     \<Rightarrow> string option \<Rightarrow> ('a, 'p, 'r, 'w) pyobject \<Rightarrow> string option
     \<Rightarrow> 'x option \<Rightarrow> string option \<Rightarrow> string list option
     \<Rightarrow> pyerr + ('a, 'p, 'r, 'w, 'x, 's) flow" where
  "Flow_init file_hash parameter_schema name fn version executor description tags =
     (if \<not> truthy fn then Inl (TypeError ''__init__() missing 1 required argument: fn'')
      else if \<not> callable fn then Inl (TypeError ''fn must be callable'')
      else (case fn of
          PyFunction f \<Rightarrow>
            (let name0 = PyStr (case str_or name None of Some n \<Rightarrow> n | None \<Rightarrow> fn_name f);
                 description0 = py_of_str (str_or description (fn_getdoc f));
                 fn0 = PyFunction (validate_arguments f);
                 self_name = updated_attr (fn_dict f) ''name'' name0;
                 self_description = updated_attr (fn_dict f) ''description'' description0;
                 self_fn = updated_attr (fn_dict f) ''fn'' fn0;
                 flow_file = fn_file f
             in (case (case str_or version None of
                         Some v \<Rightarrow> Inr (Some v)
                       | None \<Rightarrow>
                           (case str_or flow_file None of
                              Some path \<Rightarrow>
                                (case file_hash path of
                                   Inl e \<Rightarrow> Inl e
                                 | Inr h \<Rightarrow> Inr (Some h))
                            | None \<Rightarrow> Inr None)) of
                   Inl e \<Rightarrow> Inl e
                 | Inr self_version \<Rightarrow>
                     (case parameter_schema self_fn of
                        Inl e \<Rightarrow> Inl e
                      | Inr schema \<Rightarrow>
                          Inr \<lparr>flow_name = self_name,
                               flow_description = self_description,
                               flow_fn = self_fn,
                               flow_version = self_version,
                               flow_executor = executor,
                               flow_tags = set (case tags of None \<Rightarrow> [] | Some ts \<Rightarrow> ts),
                               flow_parameters = schema\<rparr>)))
        | _ \<Rightarrow> Inl (TypeError ''fn must be callable'')))"



section \<open>Vocabulary of the statements\<close>

text \<open>
  Python's \<^verbatim>\<open>a == b\<close> on two dictionaries of class \<^verbatim>\<open>dict\<close>: the same number of
  keys, and every key of \<open>a\<close> is a key of \<open>b\<close> with an equal value; the order of
  insertion does not count. Values are compared with \<open>=\<close>, which implies Python's
  equality.
\<close>

definition dict_eq :: "('a \<times> 'b) list \<Rightarrow> ('a \<times> 'b) list \<Rightarrow> bool" where
  "dict_eq a b \<longleftrightarrow> length a = length b \<and> list_all (\<lambda>(k, v). map_of b k = Some v) a"

text \<open>
  The invariant of the representation: no dictionary, at any depth, holds a key
  twice. Every Python dictionary satisfies it.
\<close>

fun dict_inv :: "'a pydict \<Rightarrow> bool" where
  "dict_inv [] = True"
| "dict_inv ((k, Leaf l) # rest) = (k \<notin> fst ` set rest \<and> dict_inv rest)"
| "dict_inv ((k, Dict c sub) # rest) = (dict_inv sub \<and> k \<notin> fst ` set rest \<and> dict_inv rest)"

text \<open>No dictionary below the top level is empty.\<close>

fun no_empty_subdict :: "'a pydict \<Rightarrow> bool" where
  "no_empty_subdict [] = True"
| "no_empty_subdict ((k, Leaf l) # rest) = no_empty_subdict rest"
| "no_empty_subdict ((k, Dict c sub) # rest) =
     (sub \<noteq> [] \<and> no_empty_subdict sub \<and> no_empty_subdict rest)"

text \<open>
  The classes whose constructor builds the dictionary of a list of items,
  \<^verbatim>\<open>dict\<close> and \<^verbatim>\<open>OrderedDict\<close>, and the dictionaries in which every dictionary
  below the top level has a class with a given property.
\<close>

definition builds_from_items :: "dict_class \<Rightarrow> bool" where
  "builds_from_items c \<longleftrightarrow> c = DictClass \<or> c = OrderedDictClass"

fun all_classes :: "(dict_class \<Rightarrow> bool) \<Rightarrow> 'a pydict \<Rightarrow> bool" where
  "all_classes P [] = True"
| "all_classes P ((k, Leaf l) # rest) = all_classes P rest"
| "all_classes P ((k, Dict c sub) # rest) = (P c \<and> all_classes P sub \<and> all_classes P rest)"

text \<open>
  The same dictionary with every dictionary below the top level given the class
  \<open>typ\<close>; keys, values and their order are kept.
\<close>

fun retype :: "dict_class \<Rightarrow> 'a pydict \<Rightarrow> 'a pydict" where
  "retype typ [] = []"
| "retype typ ((k, Leaf l) # rest) = (k, Leaf l) # retype typ rest"
| "retype typ ((k, Dict c sub) # rest) = (k, Dict typ (retype typ sub)) # retype typ rest"

text \<open>
  No key tuple is a prefix of another one; as a tuple is a prefix of itself, the key
  tuples are pairwise different too.
\<close>

fun prefix_free :: "'k list list \<Rightarrow> bool" where
  "prefix_free [] = True"
| "prefix_free (p # ps) =
     (list_all (\<lambda>q. \<not> prefix p q \<and> \<not> prefix q p) ps \<and> prefix_free ps)"

text \<open>
  The paths from the top of a nested dictionary to its leaves, in depth-first order:
  the flat items that \<^verbatim>\<open>dict\<close> and \<^verbatim>\<open>OrderedDict\<close> are built from.
\<close>

fun leaves :: "'a pydict \<Rightarrow> 'a flatdict" where
  "leaves [] = []"
| "leaves ((k, Leaf l) # rest) = ([k], Leaf l) # leaves rest"
| "leaves ((k, Dict c sub) # rest) = map (apfst ((#) k)) (leaves sub) @ leaves rest"

section \<open>Examples\<close>

text \<open>
  A small runtime for the examples: objects are integers or strings, the types are
  \<^verbatim>\<open>int\<close>, \<^verbatim>\<open>str\<close> and \<^verbatim>\<open>object\<close>, of which every object is an instance.
\<close>

datatype pytype = IntType | StrType | ObjectType

fun example_isinstance :: "int + string \<Rightarrow> pytype \<Rightarrow> bool" where
  "example_isinstance (Inl n) IntType = True"
| "example_isinstance (Inr s) StrType = True"
| "example_isinstance obj ObjectType = True"
| "example_isinstance obj t = False"

text \<open>
  A remote store for the examples: it holds \<^verbatim>\<open>my_var\<close>, cannot be reached for the
  name \<^verbatim>\<open>down\<close>, and has no other variable; the world is the number of lookups
  made.
\<close>

definition example_store ::
  "string \<Rightarrow> nat \<Rightarrow> (pyerr + variable option) \<times> nat" where
  "example_store name lookups =
     (if name = ''my_var'' then Inr (Some \<lparr>var_name = ''my_var'', var_value = ''42''\<rparr>)
      else if name = ''down'' then Inl (OtherError ''connection refused'')
      else Inr None,
      Suc lookups)"


definition example_file_hash :: "string \<Rightarrow> pyerr + string" where
  "example_file_hash path = Inr ''0a1b2c''"

definition example_parameter_schema :: "'f \<Rightarrow> pyerr + string list" where
  "example_parameter_schema f = Inr [''x'']"









text \<open>
  Example values: the integer \<open>n\<close>, and strings as the atoms. A string is
  hashable and refuses item assignment.
\<close>

abbreviation int_val :: "int \<Rightarrow> 'a pyval" where
  "int_val n \<equiv> Leaf (IntLeaf n)"

definition example_hashable :: "string \<Rightarrow> bool" where
  "example_hashable s = True"

definition example_setitem :: "string \<Rightarrow> string pyval \<Rightarrow> string pyval \<Rightarrow> pyerr + string" where
  "example_setitem s k v = Inl (TypeError ''object does not support item assignment'')"

section \<open>Flattening and unflattening\<close>

subsection \<open>Item assignment\<close>

lemma dict_setitem_fresh: "k \<notin> fst ` set d \<Longrightarrow> dict_setitem d k v = d @ [(k, v)]"
  by (induction d) auto

lemma dict_setitem_same: "map_of d k = Some v \<Longrightarrow> dict_setitem d k v = d"
  by (induction d) (auto split: if_splits)

lemma dict_setitem_twice: "dict_setitem (dict_setitem d k v) k w = dict_setitem d k w"
  by (induction d) auto

lemma map_of_dict_setitem: "map_of (dict_setitem d k v) k = Some v"
  by (induction d) auto

lemma dict_setitem_append_last:
  "k \<notin> fst ` set d \<Longrightarrow> dict_setitem (d @ [(k, v)]) k w = d @ [(k, w)]"
  by (induction d) auto

lemma foldl_dict_setitem_distinct:
  "distinct (map fst (acc @ xs)) \<Longrightarrow>
     foldl (\<lambda>d (k, v). dict_setitem d k v) acc xs = acc @ xs"
proof (induction xs arbitrary: acc)
  case Nil
  then show ?case by simp
next
  case (Cons x xs)
  obtain k v where x: "x = (k, v)" by (cases x)
  from Cons.prems have "k \<notin> fst ` set acc" by (auto simp: x)
  then have "dict_setitem acc k v = acc @ [x]" by (simp add: dict_setitem_fresh x)
  moreover from Cons.prems have "distinct (map fst ((acc @ [x]) @ xs))" by simp
  ultimately show ?case using Cons.IH [of "acc @ [x]"] by (simp add: x)
qed

lemma dict_from_items_distinct: "distinct (map fst xs) \<Longrightarrow> dict_from_items xs = xs"
  using foldl_dict_setitem_distinct [of "[]" xs] by (simp add: dict_from_items_def)

lemma class_from_items_distinct:
  "builds_from_items typ \<Longrightarrow> distinct (map fst xs) \<Longrightarrow> class_from_items h typ xs = Inr xs"
  by (auto simp: builds_from_items_def class_from_items_def dict_from_items_distinct)

lemma key_of_entry: "(a, b) \<in> set d \<Longrightarrow> a \<in> fst ` set d"
  by force

lemma keys_dict_setitem: "fst ` set (dict_setitem d k v) = insert k (fst ` set d)"
proof (induction d)
  case Nil
  show ?case by simp
next
  case (Cons e d)
  obtain k' v' where e: "e = (k', v')" by (cases e)
  show ?case
  proof (cases "k' = k")
    case True
    then show ?thesis by (simp add: e)
  next
    case False
    then have "fst ` set (dict_setitem (e # d) k v)
        = insert k' (fst ` set (dict_setitem d k v))"
      by (simp add: e)
    also have "\<dots> = insert k' (insert k (fst ` set d))"
      by (simp only: Cons.IH)
    finally show ?thesis by (simp add: e insert_commute)
  qed
qed

subsection \<open>Flattening gives the leaf paths\<close>

lemma leaves_path: "(p, v) \<in> set (leaves d) \<Longrightarrow> p \<noteq> [] \<and> hd p \<in> fst ` set d"
  by (induction d rule: leaves.induct) (auto simp: image_iff)

lemma leaves_is_Leaf: "(p, v) \<in> set (leaves d) \<Longrightarrow> is_Leaf v"
  by (induction d arbitrary: p rule: leaves.induct) auto

lemma leaves_append: "leaves (a @ b) = leaves a @ leaves b"
  by (induction a rule: leaves.induct) auto

lemma leaves_retype: "leaves (retype typ d) = leaves d"
  by (induction d rule: leaves.induct) auto

lemma keys_retype: "fst ` set (retype typ d) = fst ` set d"
  by (induction d rule: leaves.induct) auto

lemma retype_same_class: "all_classes (\<lambda>c. c = typ) d \<Longrightarrow> retype typ d = d"
  by (induction d rule: leaves.induct) auto

lemma distinct_leaves: "dict_inv d \<Longrightarrow> distinct (map fst (leaves d))"
proof (induction d rule: leaves.induct)
  case 1
  then show ?case by simp
next
  case (2 k l rest)
  have "[k] \<notin> fst ` set (leaves rest)"
  proof
    assume "[k] \<in> fst ` set (leaves rest)"
    then obtain v where "([k], v) \<in> set (leaves rest)" by auto
    from leaves_path [OF this] have "k \<in> fst ` set rest" by simp
    with 2 show False by simp
  qed
  with 2 show ?case by simp
next
  case (3 k c sub rest)
  have m: "map fst (map (apfst ((#) k)) (leaves sub)) = map ((#) k) (map fst (leaves sub))"
    by (simp add: comp_def)
  from 3 have "distinct (map fst (leaves sub))" by simp
  then have d1: "distinct (map ((#) k) (map fst (leaves sub)))"
    by (simp add: distinct_map inj_on_def)
  have d2: "set (map ((#) k) (map fst (leaves sub))) \<inter> set (map fst (leaves rest)) = {}"
  proof (rule ccontr)
    assume "\<not> ?thesis"
    then obtain p where "p \<in> set (map ((#) k) (map fst (leaves sub)))"
      "p \<in> set (map fst (leaves rest))" by blast
    then obtain q v where "p = k # q" "(p, v) \<in> set (leaves rest)" by auto
    with leaves_path [of p v rest] have "k \<in> fst ` set rest" by simp
    with 3 show False by simp
  qed
  from 3 have "distinct (map fst (leaves rest))" by simp
  with d1 d2 show ?case by (simp add: m)
qed

lemma distinct_prefixed_leaves:
  "dict_inv d \<Longrightarrow> distinct (map fst (map (apfst ((@) parent)) (leaves d)))"
proof -
  assume "dict_inv d"
  then have "distinct (map fst (leaves d))" by (rule distinct_leaves)
  then have "distinct (map ((@) parent) (map fst (leaves d)))"
    by (subst distinct_map) (simp add: inj_on_def)
  moreover have "map fst (map (apfst ((@) parent)) (leaves d))
      = map ((@) parent) (map fst (leaves d))"
    by (simp add: comp_def)
  ultimately show ?thesis by simp
qed

lemma dict_to_flatdict_items_leaves:
  "dict_inv d \<Longrightarrow> all_classes builds_from_items d \<Longrightarrow>
     dict_to_flatdict_items h d parent = Inr (map (apfst ((@) parent)) (leaves d))"
proof (induction d arbitrary: parent rule: leaves.induct)
  case 1
  then show ?case by simp
next
  case (2 k l rest)
  then show ?case by simp
next
  case (3 k c sub rest)
  from "3.prems" have inv: "dict_inv sub" "dict_inv rest"
    and cls: "builds_from_items c" "all_classes builds_from_items sub"
      "all_classes builds_from_items rest"
    by simp_all
  have sub: "dict_to_flatdict_items h sub (parent @ [k])
               = Inr (map (apfst ((@) (parent @ [k]))) (leaves sub))"
    by (rule "3.IH"(1) [OF inv(1) cls(2)])
  have "class_from_items h c (map (apfst ((@) (parent @ [k]))) (leaves sub))
          = Inr (map (apfst ((@) (parent @ [k]))) (leaves sub))"
    by (rule class_from_items_distinct [OF cls(1) distinct_prefixed_leaves [OF inv(1)]])
  then have "dict_to_flatdict h c sub (Some (parent @ [k]))
          = Inr (c, map (apfst ((@) (parent @ [k]))) (leaves sub))"
    by (simp add: sub dict_to_flatdict.simps)
  moreover have "map (apfst ((@) (parent @ [k]))) (leaves sub)
          = map (apfst ((@) parent)) (map (apfst ((#) k)) (leaves sub))"
    by (simp add: comp_def apfst_def map_prod_def split_def)
  ultimately show ?case using "3.IH"(2) [OF inv(2) cls(3), of parent] by simp
qed

lemma dict_to_flatdict_leaves:
  assumes "dict_inv d" and "builds_from_items typ" and "all_classes builds_from_items d"
  shows "dict_to_flatdict h typ d None = Inr (typ, leaves d)"
proof -
  have "map (apfst ((@) [])) (leaves d) = leaves d"
    by (simp add: apfst_def map_prod_def split_def)
  with dict_to_flatdict_items_leaves [OF assms(1,3), of h "[]"]
  have "dict_to_flatdict_items h d [] = Inr (leaves d)" by simp
  with class_from_items_distinct [OF assms(2) distinct_leaves [OF assms(1)], of h]
  show ?thesis by (simp add: dict_to_flatdict.simps)
qed

subsection \<open>Unflattening the leaf paths\<close>

lemma flatdict_to_dict_loop_append:
  "flatdict_to_dict_loop setitem typ (a @ b) acc =
     (case flatdict_to_dict_loop setitem typ a acc of
        Inl e \<Rightarrow> Inl e
      | Inr r \<Rightarrow> flatdict_to_dict_loop setitem typ b r)"
  by (induction a arbitrary: acc) (auto split: sum.splits)

lemma loop_under_existing_key:
  "map_of cur k = Some (Dict c s) \<Longrightarrow> list_all (\<lambda>(p, v). p \<noteq> []) its \<Longrightarrow>
     flatdict_to_dict_loop setitem typ (map (apfst ((#) k)) its) cur =
       (case flatdict_to_dict_loop setitem typ its s of
          Inl e \<Rightarrow> Inl e
        | Inr s' \<Rightarrow> Inr (dict_setitem cur k (Dict c s')))"
proof (induction its arbitrary: cur s)
  case Nil
  then show ?case by (simp add: dict_setitem_same)
next
  case (Cons it its)
  obtain p v where it: "it = (p, v)" by (cases it)
  with Cons.prems obtain k1 ks where p: "p = k1 # ks" by (cases p) auto
  show ?case
  proof (cases "flatdict_set_path setitem typ s (k1 # ks) v")
    case (Inl e)
    with Cons.prems show ?thesis by (simp add: it p)
  next
    case (Inr s1)
    let ?cur1 = "dict_setitem cur k (Dict c s1)"
    have m: "map_of ?cur1 k = Some (Dict c s1)" by (rule map_of_dict_setitem)
    from Cons.prems have "list_all (\<lambda>(p, v). p \<noteq> []) its" by simp
    from Cons.IH [OF m this] Inr Cons.prems show ?thesis
      by (simp add: it p dict_setitem_twice split: sum.splits)
  qed
qed

lemma loop_under_new_key:
  assumes "map_of cur k = None" and "its \<noteq> []" and "list_all (\<lambda>(p, v). p \<noteq> []) its"
  shows "flatdict_to_dict_loop setitem typ (map (apfst ((#) k)) its) cur =
       (case flatdict_to_dict_loop setitem typ its [] of
          Inl e \<Rightarrow> Inl e
        | Inr s' \<Rightarrow> Inr (cur @ [(k, Dict typ s')]))"
proof -
  from assms(2) obtain it its' where its: "its = it # its'" by (cases its) auto
  obtain p v where it: "it = (p, v)" by (cases it)
  with assms(3) its obtain k1 ks where p: "p = k1 # ks" by (cases p) auto
  from assms(1) have fresh: "k \<notin> fst ` set cur" by (simp add: map_of_eq_None_iff)
  show ?thesis
  proof (cases "flatdict_set_path setitem typ [] (k1 # ks) v")
    case (Inl e)
    with assms(1) show ?thesis by (simp add: its it p)
  next
    case (Inr s1)
    let ?cur1 = "cur @ [(k, Dict typ s1)]"
    from fresh have m: "map_of ?cur1 k = Some (Dict typ s1)"
      by (simp add: map_of_eq_None_iff [symmetric] map_add_def)
    from assms(3) its have "list_all (\<lambda>(p, v). p \<noteq> []) its'" by simp
    from loop_under_existing_key [OF m this] Inr assms(1) fresh show ?thesis
      by (simp add: its it p dict_setitem_append_last split: sum.splits)
  qed
qed

lemma leaves_nonempty_paths: "list_all (\<lambda>(p, v). p \<noteq> []) (leaves d)"
  using leaves_path [of _ _ d] by (auto simp: list_all_iff)

lemma leaves_nonempty: "no_empty_subdict d \<Longrightarrow> d \<noteq> [] \<Longrightarrow> leaves d \<noteq> []"
  by (induction d rule: leaves.induct) auto

lemma unflatten_leaves:
  "dict_inv d \<Longrightarrow> no_empty_subdict d \<Longrightarrow> fst ` set acc \<inter> fst ` set d = {} \<Longrightarrow>
     flatdict_to_dict_loop setitem typ (leaves d) acc = Inr (acc @ retype typ d)"
proof (induction d arbitrary: acc rule: leaves.induct)
  case 1
  then show ?case by simp
next
  case (2 k l rest)
  from "2.prems" have fresh: "k \<notin> fst ` set acc" by auto
  from "2.prems" have "fst ` set (acc @ [(k, Leaf l)]) \<inter> fst ` set rest = {}" by auto
  with "2.IH" [of "acc @ [(k, Leaf l)]"] "2.prems" fresh show ?case
    by (simp add: dict_setitem_fresh)
next
  case (3 k c sub rest)
  from "3.prems" have fresh: "map_of acc k = None"
    by (auto simp: map_of_eq_None_iff)
  from "3.prems" have sub: "dict_inv sub" "no_empty_subdict sub" "sub \<noteq> []" by simp_all
  from "3.IH"(1) [OF sub(1,2), of "[]"]
  have s: "flatdict_to_dict_loop setitem typ (leaves sub) [] = Inr (retype typ sub)"
    by simp
  from leaves_nonempty [OF sub(2,3)] have ne: "leaves sub \<noteq> []" .
  from loop_under_new_key [OF fresh ne leaves_nonempty_paths, of setitem "typ"] s
  have a: "flatdict_to_dict_loop setitem typ (map (apfst ((#) k)) (leaves sub)) acc
             = Inr (acc @ [(k, Dict typ (retype typ sub))])" by simp
  from "3.prems"
  have "fst ` set (acc @ [(k, Dict typ (retype typ sub))]) \<inter> fst ` set rest = {}" by auto
  with "3.IH"(2) [of "acc @ [(k, Dict typ (retype typ sub))]"] "3.prems" a show ?case
    by (simp add: flatdict_to_dict_loop_append)
qed

text \<open>
  C1, as amended. For every nested dictionary of class \<^verbatim>\<open>dict\<close> or
  \<^verbatim>\<open>OrderedDict\<close> in which every dictionary below the top level has one of these
  two classes and none of them is empty, \<^verbatim>\<open>dict_to_flatdict\<close> returns a flat
  dictionary of the class of its argument and \<^verbatim>\<open>flatdict_to_dict\<close> of it returns
  normally: a dictionary of that class with the keys, the values and the order of
  insertion of the original at every level, every dictionary below the top level
  having the class of the top level. When the dictionaries of the original all have
  one class, the result is the original itself.
\<close>

theorem flatdict_roundtrip:
  assumes "dict_inv dct" and "no_empty_subdict dct"
    and "builds_from_items typ" and "all_classes builds_from_items dct"
  shows "\<exists>flat. dict_to_flatdict h typ dct None = Inr (typ, flat)
           \<and> flatdict_to_dict setitem typ flat = Inr (typ, retype typ dct)
           \<and> (all_classes (\<lambda>c. c = typ) dct \<longrightarrow> retype typ dct = dct)"
proof -
  have f: "dict_to_flatdict h typ dct None = Inr (typ, leaves dct)"
    by (rule dict_to_flatdict_leaves [OF assms(1,3,4)])
  from unflatten_leaves [OF assms(1,2), of "[]" setitem "typ"]
  have u: "flatdict_to_dict setitem typ (leaves dct) = Inr (typ, retype typ dct)"
    by (simp add: flatdict_to_dict_def)
  have r: "all_classes (\<lambda>c. c = typ) dct \<longrightarrow> retype typ dct = dct"
    by (simp add: retype_same_class)
  from f u r show ?thesis by (intro exI [of _ "leaves dct"] conjI)
qed

theorem flatdict_roundtrip_witness:
  "dict_inv [(int_val 1, int_val 10),
      (int_val 2, Dict DictClass [(int_val 3, int_val 30),
         (int_val 4, Dict DictClass [(int_val 5, Leaf (Atom ''a''))])])]
   \<and> no_empty_subdict [(int_val 1, int_val 10),
      (int_val 2, Dict DictClass [(int_val 3, int_val 30),
         (int_val 4, Dict DictClass [(int_val 5, Leaf (Atom ''a''))])])]
   \<and> builds_from_items DictClass
   \<and> all_classes builds_from_items [(int_val 1, int_val 10),
      (int_val 2, Dict DictClass [(int_val 3, int_val 30),
         (int_val 4, Dict DictClass [(int_val 5, Leaf (Atom ''a''))])])]
   \<and> all_classes (\<lambda>c. c = DictClass) [(int_val 1, int_val 10),
      (int_val 2, Dict DictClass [(int_val 3, int_val 30),
         (int_val 4, Dict DictClass [(int_val 5, Leaf (Atom ''a''))])])]
   \<and> dict_to_flatdict example_hashable DictClass [(int_val 1, int_val 10),
      (int_val 2, Dict DictClass [(int_val 3, int_val 30),
         (int_val 4, Dict DictClass [(int_val 5, Leaf (Atom ''a''))])])] None
      = Inr (DictClass, [([int_val 1], int_val 10), ([int_val 2, int_val 3], int_val 30),
          ([int_val 2, int_val 4, int_val 5], Leaf (Atom ''a''))])
   \<and> flatdict_to_dict example_setitem DictClass
        [([int_val 1], int_val 10), ([int_val 2, int_val 3], int_val 30),
         ([int_val 2, int_val 4, int_val 5], Leaf (Atom ''a''))]
      = Inr (DictClass, [(int_val 1, int_val 10),
          (int_val 2, Dict DictClass [(int_val 3, int_val 30),
             (int_val 4, Dict DictClass [(int_val 5, Leaf (Atom ''a''))])])])"
  using flatdict_roundtrip
    [of "[(int_val 1, int_val 10),
      (int_val 2, Dict DictClass [(int_val 3, int_val 30),
         (int_val 4, Dict DictClass [(int_val 5, Leaf (Atom ''a''))])])]"
      DictClass example_hashable example_setitem]
  by (simp add: builds_from_items_def dict_to_flatdict.simps class_from_items_def
        dict_from_items_def flatdict_to_dict_def)

text \<open>
  An \<^verbatim>\<open>OrderedDict\<close> inside a \<^verbatim>\<open>dict\<close> comes back as a \<^verbatim>\<open>dict\<close> with the same
  items.
\<close>

lemma flatdict_roundtrip_ordered_in_dict:
  "dict_to_flatdict example_hashable DictClass
      [(int_val 1, Dict OrderedDictClass [(int_val 2, int_val 3)])] None
     = Inr (DictClass, [([int_val 1, int_val 2], int_val 3)])
   \<and> flatdict_to_dict example_setitem DictClass [([int_val 1, int_val 2], int_val 3)]
     = Inr (DictClass, [(int_val 1, Dict DictClass [(int_val 2, int_val 3)])])"
  by (simp add: dict_to_flatdict.simps class_from_items_def dict_from_items_def
        flatdict_to_dict_def)

text \<open>
  C1 as stated fails, in three ways. An empty dictionary below the top level has no
  leaf, so the flat form has no item for it and its key is lost: \<^verbatim>\<open>{1: {}}\<close>
  flattens to \<^verbatim>\<open>{}\<close>, which unflattens to \<^verbatim>\<open>{}\<close>. For a nested \<^verbatim>\<open>defaultdict\<close>
  the recursive call ends in \<^verbatim>\<open>defaultdict(items)\<close>, which raises \<^verbatim>\<open>TypeError\<close>.
  For a nested \<^verbatim>\<open>Counter\<close> the recursive call returns the count of each pair:
  \<^verbatim>\<open>{1: Counter({2: 3})}\<close> flattens to \<^verbatim>\<open>{((1, 2), 3): 1}\<close>, which unflattens to
  \<^verbatim>\<open>{(1, 2): {3: 1}}\<close>.
\<close>

theorem flatdict_roundtrip_empty_subdict:
  "dict_inv [(int_val 1 :: string pyval, Dict DictClass [])]
   \<and> dict_to_flatdict example_hashable DictClass [(int_val 1, Dict DictClass [])] None
       = Inr (DictClass, [])
   \<and> flatdict_to_dict example_setitem DictClass [] = Inr (DictClass, [])
   \<and> [] \<noteq> [(int_val 1 :: string pyval, Dict DictClass [] :: string pyval)]
   \<and> dict_to_flatdict example_hashable DictClass
        [(int_val 1, Dict DefaultDictClass [(int_val 2, int_val 3)])] None
       = Inl (TypeError ''first argument must be callable or None'')
   \<and> dict_to_flatdict example_hashable DictClass
        [(int_val 1, Dict CounterClass [(int_val 2, int_val 3)])] None
       = Inr (DictClass, [([Leaf (TupleLeaf [int_val 1, int_val 2]), int_val 3], int_val 1)])
   \<and> flatdict_to_dict example_setitem DictClass
        [([Leaf (TupleLeaf [int_val 1, int_val 2]), int_val 3], int_val 1)]
       = Inr (DictClass,
           [(Leaf (TupleLeaf [int_val 1, int_val 2]), Dict DictClass [(int_val 3, int_val 1)])])"
  by (simp add: dict_to_flatdict.simps class_from_items_def dict_from_items_def
        counter_from_items_def counter_get_def flatdict_to_dict_def example_hashable_def)

subsection \<open>Storing one path\<close>

lemma leaves_Cons: "leaves (e # d) = leaves [e] @ leaves d"
  by (cases e; cases "snd e") auto

lemma leaves_single_hd: "(p, w) \<in> set (leaves [(k, v)]) \<Longrightarrow> p \<noteq> [] \<and> hd p = k"
  using leaves_path [of p w "[(k, v)]"] by simp

lemma dict_inv_Cons:
  "dict_inv ((k, v) # d) \<longleftrightarrow>
     (case v of Leaf l \<Rightarrow> True | Dict c s \<Rightarrow> dict_inv s) \<and> k \<notin> fst ` set d \<and> dict_inv d"
  by (cases v) auto

lemma dict_inv_setitem:
  "dict_inv d \<Longrightarrow> (case v of Leaf l \<Rightarrow> True | Dict c s \<Rightarrow> dict_inv s) \<Longrightarrow>
     dict_inv (dict_setitem d k v)"
proof (induction d)
  case Nil
  then show ?case by (simp add: dict_inv_Cons)
next
  case (Cons e d)
  obtain k' v' where e: "e = (k', v')" by (cases e)
  from Cons show ?case
    by (auto simp: e dict_inv_Cons keys_dict_setitem simp del: dict_inv.simps)
qed

lemma dict_inv_lookup: "dict_inv d \<Longrightarrow> map_of d k = Some (Dict c s) \<Longrightarrow> dict_inv s"
  by (induction d rule: dict_inv.induct) (auto split: if_splits)

lemma all_classes_Cons:
  "all_classes P ((k, v) # d) \<longleftrightarrow>
     (case v of Leaf l \<Rightarrow> True | Dict c s \<Rightarrow> P c \<and> all_classes P s) \<and> all_classes P d"
  by (cases v) auto

lemma all_classes_setitem:
  "all_classes P d \<Longrightarrow> (case v of Leaf l \<Rightarrow> True | Dict c s \<Rightarrow> P c \<and> all_classes P s) \<Longrightarrow>
     all_classes P (dict_setitem d k v)"
proof (induction d)
  case Nil
  then show ?case by (simp add: all_classes_Cons)
next
  case (Cons e d)
  obtain k' v' where e: "e = (k', v')" by (cases e)
  from Cons show ?case
    by (auto simp: e all_classes_Cons simp del: all_classes.simps)
qed

lemma all_classes_lookup:
  "all_classes P d \<Longrightarrow> map_of d k = Some (Dict c s) \<Longrightarrow> P c \<and> all_classes P s"
  by (induction d rule: dict_inv.induct) (auto split: if_splits)

lemma all_classes_mono:
  "all_classes P d \<Longrightarrow> (\<And>c. P c \<Longrightarrow> Q c) \<Longrightarrow> all_classes Q d"
  by (induction d rule: dict_inv.induct) auto

lemma leaves_dict_setitem:
  "dict_inv cur \<Longrightarrow>
     set (leaves (dict_setitem cur k v)) =
       {e \<in> set (leaves cur). hd (fst e) \<noteq> k} \<union> set (leaves [(k, v)])"
proof (induction cur)
  case Nil
  then show ?case by simp
next
  case (Cons e d)
  obtain k' v' where e: "e = (k', v')" by (cases e)
  from Cons.prems have inv: "k' \<notin> fst ` set d" "dict_inv d"
    by (simp_all add: e dict_inv_Cons del: dict_inv.simps)
  have hd_e: "\<And>q. q \<in> set (leaves [(k', v')]) \<Longrightarrow> hd (fst q) = k'"
    using leaves_single_hd [of _ _ k' v'] by (metis prod.collapse)
  have hd_d: "\<And>q. q \<in> set (leaves d) \<Longrightarrow> hd (fst q) \<in> fst ` set d"
    using leaves_path [of _ _ d] by (metis prod.collapse)
  have L: "set (leaves (e # d)) = set (leaves [(k', v')]) \<union> set (leaves d)"
    using leaves_Cons [of e d] by (simp add: e)
  show ?case
  proof (cases "k' = k")
    case True
    have "dict_setitem (e # d) k v = (k, v) # d" by (simp add: e True)
    then have "set (leaves (dict_setitem (e # d) k v)) = set (leaves [(k, v)]) \<union> set (leaves d)"
      by (simp add: leaves_Cons [of "(k, v)" d])
    moreover have "{q \<in> set (leaves (e # d)). hd (fst q) \<noteq> k} = set (leaves d)"
      unfolding L using hd_e hd_d inv(1) True by blast
    ultimately show ?thesis by blast
  next
    case False
    have "dict_setitem (e # d) k v = e # dict_setitem d k v" by (simp add: e False)
    then have "set (leaves (dict_setitem (e # d) k v))
        = set (leaves [e]) \<union> set (leaves (dict_setitem d k v))"
      by (simp add: leaves_Cons [of e "dict_setitem d k v"])
    also have "\<dots> = set (leaves [e])
        \<union> ({q \<in> set (leaves d). hd (fst q) \<noteq> k} \<union> set (leaves [(k, v)]))"
      by (simp add: Cons.IH [OF inv(2)])
    finally have R: "set (leaves (dict_setitem (e # d) k v))
        = set (leaves [(k', v')])
          \<union> ({q \<in> set (leaves d). hd (fst q) \<noteq> k} \<union> set (leaves [(k, v)]))"
      by (simp add: e)
    have "set (leaves [(k', v')]) = {q \<in> set (leaves [(k', v')]). hd (fst q) \<noteq> k}"
      using hd_e False by blast
    with R show ?thesis unfolding L by blast
  qed
qed

lemma leaves_lookup:
  assumes "dict_inv cur" and "map_of cur k = Some v"
  shows "set (leaves cur) = {e \<in> set (leaves cur). hd (fst e) \<noteq> k} \<union> set (leaves [(k, v)])"
  using leaves_dict_setitem [OF assms(1), of k v] dict_setitem_same [OF assms(2)] by simp

lemma leaves_lookup_subset:
  assumes "dict_inv cur" and "map_of cur k = Some v"
  shows "set (leaves [(k, v)]) \<subseteq> set (leaves cur)"
  using leaves_lookup [OF assms] by blast

lemma set_path_leaf:
  "dict_inv cur \<Longrightarrow> all_classes P cur \<Longrightarrow> P typ \<Longrightarrow> p \<noteq> [] \<Longrightarrow>
   (\<forall>e \<in> set (leaves cur). \<not> prefix (fst e) p \<and> \<not> prefix p (fst e)) \<Longrightarrow>
   \<exists>cur'. flatdict_set_path setitem typ cur p (Leaf x) = Inr cur' \<and> dict_inv cur'
      \<and> all_classes P cur'
      \<and> set (leaves cur') = insert (p, Leaf x) (set (leaves cur))"
proof (induction p arbitrary: cur)
  case Nil
  then show ?case by simp
next
  case (Cons a p')
  note inv = Cons.prems(1)
  note cls = Cons.prems(2)
  note ptyp = Cons.prems(3)
  note compat = Cons.prems(5)
  show ?case
  proof (cases p')
    case Nil
    let ?cur' = "dict_setitem cur a (Leaf x)"
    have i: "dict_inv ?cur'" by (rule dict_inv_setitem [OF inv]) simp
    have c: "all_classes P ?cur'" by (rule all_classes_setitem [OF cls]) simp
    have "{e \<in> set (leaves cur). hd (fst e) \<noteq> a} = set (leaves cur)"
    proof -
      have "hd (fst e) \<noteq> a" if "e \<in> set (leaves cur)" for e
      proof
        assume h: "hd (fst e) = a"
        from that leaves_path [of "fst e" "snd e" cur] have "fst e \<noteq> []" by simp
        with h have "prefix [a] (fst e)" by (cases "fst e") auto
        with compat that Nil show False by simp
      qed
      then show ?thesis by blast
    qed
    with leaves_dict_setitem [OF inv, of a "Leaf x"]
    have "set (leaves ?cur') = insert ([a], Leaf x) (set (leaves cur))" by simp
    with i c Nil show ?thesis by simp
  next
    case (Cons k ks)
    show ?thesis
    proof (cases "map_of cur a")
      case None
      have "\<exists>sub. flatdict_set_path setitem typ [] p' (Leaf x) = Inr sub \<and> dict_inv sub
          \<and> all_classes P sub
          \<and> set (leaves sub) = insert (p', Leaf x) (set (leaves []))"
        by (rule Cons.IH) (simp_all add: Cons ptyp)
      then obtain sub where sub: "flatdict_set_path setitem typ [] p' (Leaf x) = Inr sub"
        "dict_inv sub" "all_classes P sub" "set (leaves sub) = {(p', Leaf x)}" by auto
      let ?cur' = "cur @ [(a, Dict typ sub)]"
      from None have fresh: "a \<notin> fst ` set cur" by (simp add: map_of_eq_None_iff)
      have "dict_inv (dict_setitem cur a (Dict typ sub))"
        by (rule dict_inv_setitem [OF inv]) (simp add: sub(2))
      with fresh have i: "dict_inv ?cur'" by (simp add: dict_setitem_fresh)
      have "all_classes P (dict_setitem cur a (Dict typ sub))"
        by (rule all_classes_setitem [OF cls]) (simp add: sub(3) ptyp)
      with fresh have c: "all_classes P ?cur'" by (simp add: dict_setitem_fresh)
      have "set (leaves ?cur') = insert (a # p', Leaf x) (set (leaves cur))"
        by (simp add: leaves_append sub(4))
      with i c sub(1) None Cons show ?thesis by simp
    next
      case (Some v)
      note lk = leaves_lookup [OF inv Some]
      note lks = leaves_lookup_subset [OF inv Some]
      show ?thesis
      proof (cases v)
        case (Leaf y)
        with lks have "([a], Leaf y) \<in> set (leaves cur)" by simp
        with compat have "\<not> prefix [a] (a # p')" by fastforce
        then show ?thesis by simp
      next
        case (Dict c0 s)
        from dict_inv_lookup [OF inv] Some Dict have inv_s: "dict_inv s" by simp
        from all_classes_lookup [OF cls] Some Dict have cls_s: "P c0" "all_classes P s"
          by simp_all
        have cs: "\<forall>e \<in> set (leaves s). \<not> prefix (fst e) p' \<and> \<not> prefix p' (fst e)"
        proof
          fix e assume "e \<in> set (leaves s)"
          then have "apfst ((#) a) e \<in> set (leaves [(a, Dict c0 s)])" by simp
          with lks Dict have "apfst ((#) a) e \<in> set (leaves cur)" by blast
          with compat have "\<not> prefix (fst (apfst ((#) a) e)) (a # p')
              \<and> \<not> prefix (a # p') (fst (apfst ((#) a) e))" by blast
          then show "\<not> prefix (fst e) p' \<and> \<not> prefix p' (fst e)" by simp
        qed
        have "\<exists>s'. flatdict_set_path setitem typ s p' (Leaf x) = Inr s' \<and> dict_inv s'
          \<and> all_classes P s'
          \<and> set (leaves s') = insert (p', Leaf x) (set (leaves s))"
          by (rule Cons.IH [OF inv_s cls_s(2) ptyp _ cs]) (simp add: Cons)
        then obtain s' where s': "flatdict_set_path setitem typ s p' (Leaf x) = Inr s'"
          "dict_inv s'" "all_classes P s'"
          "set (leaves s') = insert (p', Leaf x) (set (leaves s))" by auto
        let ?cur' = "dict_setitem cur a (Dict c0 s')"
        have i: "dict_inv ?cur'" by (rule dict_inv_setitem [OF inv]) (simp add: s'(2))
        have c: "all_classes P ?cur'"
          by (rule all_classes_setitem [OF cls]) (simp add: s'(3) cls_s(1))
        from leaves_dict_setitem [OF inv, of a "Dict c0 s'"]
        have "set (leaves ?cur') = {e \<in> set (leaves cur). hd (fst e) \<noteq> a}
            \<union> apfst ((#) a) ` set (leaves s')" by simp
        also have "\<dots> = insert (a # p', Leaf x)
            ({e \<in> set (leaves cur). hd (fst e) \<noteq> a} \<union> apfst ((#) a) ` set (leaves s))"
          by (simp add: s'(4))
        also from lk Dict have "{e \<in> set (leaves cur). hd (fst e) \<noteq> a}
            \<union> apfst ((#) a) ` set (leaves s) = set (leaves cur)" by simp
        finally have "set (leaves ?cur') = insert (a # p', Leaf x) (set (leaves cur))" .
        with i c s'(1) Some Dict Cons show ?thesis by simp
      qed
    qed
  qed
qed

lemma unflatten_loop_leaves:
  "dict_inv acc \<Longrightarrow> all_classes P acc \<Longrightarrow> P typ \<Longrightarrow>
   list_all (\<lambda>(p, v). p \<noteq> [] \<and> is_Leaf v) f \<Longrightarrow>
   prefix_free (map fst f) \<Longrightarrow>
   (\<forall>e \<in> set (leaves acc). \<forall>p \<in> fst ` set f. \<not> prefix (fst e) p \<and> \<not> prefix p (fst e)) \<Longrightarrow>
   \<exists>d. flatdict_to_dict_loop setitem typ f acc = Inr d \<and> dict_inv d \<and> all_classes P d
      \<and> set (leaves d) = set (leaves acc) \<union> set f"
proof (induction f arbitrary: acc)
  case Nil
  then show ?case by simp
next
  case (Cons it f)
  obtain p v where it: "it = (p, v)" by (cases it)
  from Cons.prems(4) obtain x where v: "v = Leaf x" and p: "p \<noteq> []"
    by (cases v) (auto simp: it)
  from Cons.prems(6) have "\<forall>e \<in> set (leaves acc). \<not> prefix (fst e) p \<and> \<not> prefix p (fst e)"
    by (simp add: it)
  from set_path_leaf [OF Cons.prems(1,2,3) p this, of setitem x]
  obtain acc' where acc': "flatdict_set_path setitem typ acc p (Leaf x) = Inr acc'"
    "dict_inv acc'" "all_classes P acc'"
    "set (leaves acc') = insert (p, Leaf x) (set (leaves acc))" by blast
  from Cons.prems(4) have f: "list_all (\<lambda>(p, v). p \<noteq> [] \<and> is_Leaf v) f" by simp
  from Cons.prems(5) have pf: "prefix_free (map fst f)"
    and pq0: "\<forall>q \<in> set (map fst f). \<not> prefix p q \<and> \<not> prefix q p"
    by (simp_all add: it list_all_iff del: set_map)
  from pq0 have pq: "\<forall>q \<in> fst ` set f. \<not> prefix p q \<and> \<not> prefix q p"
    by (simp only: set_map)
  have "\<forall>e \<in> set (leaves acc'). \<forall>q \<in> fst ` set f. \<not> prefix (fst e) q \<and> \<not> prefix q (fst e)"
  proof (intro ballI)
    fix e q assume e: "e \<in> set (leaves acc')" and q: "q \<in> fst ` set f"
    from e acc'(4) consider "e = (p, Leaf x)" | "e \<in> set (leaves acc)" by auto
    then show "\<not> prefix (fst e) q \<and> \<not> prefix q (fst e)"
    proof cases
      case 1
      with pq q show ?thesis by auto
    next
      case 2
      with Cons.prems(6) q show ?thesis by auto
    qed
  qed
  from Cons.IH [OF acc'(2,3) Cons.prems(3) f pf this]
  obtain d where d: "flatdict_to_dict_loop setitem typ f acc' = Inr d" "dict_inv d"
    "all_classes P d" "set (leaves d) = set (leaves acc') \<union> set f" by blast
  from d acc' show ?case by (simp add: it v)
qed

lemma prefix_free_distinct: "prefix_free ps \<Longrightarrow> distinct ps"
  by (induction ps) (auto simp: list_all_iff)

lemma dict_eq_of_same_entries:
  assumes "distinct (map fst a)" and "distinct (map fst b)" and "set a = set b"
  shows "dict_eq a b"
proof -
  from assms(1) have "distinct a" by (simp add: distinct_map)
  moreover from assms(2) have "distinct b" by (simp add: distinct_map)
  ultimately have "length a = length b"
    using assms(3) by (metis distinct_card)
  moreover have "list_all (\<lambda>(k, v). map_of b k = Some v) a"
    using assms(2,3) by (auto simp: list_all_iff)
  ultimately show ?thesis by (simp add: dict_eq_def)
qed

text \<open>
  C2, as amended. For every flat dictionary of class \<^verbatim>\<open>dict\<close> or \<^verbatim>\<open>OrderedDict\<close>
  of the shape \<^verbatim>\<open>dict_to_flatdict\<close> produces (every key tuple non-empty, no key
  tuple a prefix of another, no value a dictionary), \<^verbatim>\<open>flatdict_to_dict\<close> returns
  normally, a dictionary of the same class, and \<^verbatim>\<open>dict_to_flatdict\<close> of it
  returns a flat dictionary of the same class that holds the items of the original:
  as many, and each key tuple of it with the value the original has for it. For the
  class \<^verbatim>\<open>dict\<close> that is Python's equality. The order of the items may differ.
\<close>

theorem flatdict_reflatten:
  assumes "builds_from_items typ"
    and "list_all (\<lambda>(key_tuple, v). key_tuple \<noteq> [] \<and> is_Leaf v) dct"
    and "prefix_free (map fst dct)"
  shows "\<exists>nested flat. flatdict_to_dict setitem typ dct = Inr (typ, nested)
           \<and> dict_to_flatdict h typ nested None = Inr (typ, flat)
           \<and> dict_eq flat dct"
proof -
  have "\<exists>d. flatdict_to_dict_loop setitem typ dct [] = Inr d \<and> dict_inv d
      \<and> all_classes builds_from_items d
      \<and> set (leaves d) = set (leaves []) \<union> set dct"
    by (rule unflatten_loop_leaves
          [where P = builds_from_items and acc = "[]", OF _ _ assms]) simp_all
  then obtain d where d: "flatdict_to_dict setitem typ dct = Inr (typ, d)" "dict_inv d"
    "all_classes builds_from_items d" "set (leaves d) = set dct"
    by (auto simp: flatdict_to_dict_def)
  have e: "dict_eq (leaves d) dct"
    by (rule dict_eq_of_same_entries [OF distinct_leaves [OF d(2)]
          prefix_free_distinct [OF assms(3)] d(4)])
  from d(1) dict_to_flatdict_leaves [OF d(2) assms(1) d(3), of h] e
  show ?thesis by (intro exI [of _ d] exI [of _ "leaves d"] conjI)
qed

theorem flatdict_reflatten_witness:
  "builds_from_items DictClass
  \<and> list_all (\<lambda>(key_tuple, v). key_tuple \<noteq> [] \<and> is_Leaf v)
      [([int_val 0, int_val 7], int_val 1), ([int_val 1], Leaf (Atom ''a'')),
       ([int_val 0, int_val 8], int_val 3)]
  \<and> prefix_free (map fst
      [([int_val 0, int_val 7], int_val 1), ([int_val 1], Leaf (Atom ''a'')),
       ([int_val 0, int_val 8], int_val 3)])
  \<and> flatdict_to_dict example_setitem DictClass
      [([int_val 0, int_val 7], int_val 1), ([int_val 1], Leaf (Atom ''a'')),
       ([int_val 0, int_val 8], int_val 3)]
     = Inr (DictClass, [(int_val 0, Dict DictClass [(int_val 7, int_val 1), (int_val 8, int_val 3)]),
              (int_val 1, Leaf (Atom ''a''))])
  \<and> dict_to_flatdict example_hashable DictClass
      [(int_val 0, Dict DictClass [(int_val 7, int_val 1), (int_val 8, int_val 3)]),
       (int_val 1, Leaf (Atom ''a''))] None
     = Inr (DictClass, [([int_val 0, int_val 7], int_val 1), ([int_val 0, int_val 8], int_val 3),
              ([int_val 1], Leaf (Atom ''a''))])
  \<and> dict_eq [([int_val 0, int_val 7], int_val 1), ([int_val 0, int_val 8], int_val 3),
              ([int_val 1], Leaf (Atom ''a''))]
      [([int_val 0, int_val 7], int_val 1), ([int_val 1], Leaf (Atom ''a'')),
       ([int_val 0, int_val 8], int_val 3)]"
  using flatdict_reflatten
    [of DictClass "[([int_val 0, int_val 7], int_val 1), ([int_val 1], Leaf (Atom ''a'')),
       ([int_val 0, int_val 8], int_val 3)]" example_setitem example_hashable]
  by (simp add: builds_from_items_def dict_to_flatdict.simps class_from_items_def
        dict_from_items_def flatdict_to_dict_def dict_eq_def)

text \<open>
  C2 as stated fails, in three ways. When one key tuple is a prefix of another, the
  shorter one replaces the dictionary the longer one was stored in:
  \<^verbatim>\<open>{(0, 1): 2, (0,): 1}\<close> unflattens to \<^verbatim>\<open>{0: 1}\<close>, which flattens to
  \<^verbatim>\<open>{(0,): 1}\<close>. A flat \<^verbatim>\<open>defaultdict\<close> unflattens to a \<^verbatim>\<open>defaultdict\<close>, and
  flattening that raises \<^verbatim>\<open>TypeError\<close>. A flat \<^verbatim>\<open>Counter\<close> unflattens to a
  \<^verbatim>\<open>Counter\<close>, and flattening that counts the pairs: \<^verbatim>\<open>Counter({(1,): 2})\<close>
  comes back as \<^verbatim>\<open>Counter({((1,), 2): 1})\<close>.
\<close>

theorem flatdict_reflatten_prefix_clash:
  "distinct (map fst [([int_val 0, int_val 1], int_val 2 :: string pyval), ([int_val 0], int_val 1)])
  \<and> flatdict_to_dict example_setitem DictClass
       [([int_val 0, int_val 1], int_val 2), ([int_val 0], int_val 1)]
     = Inr (DictClass, [(int_val 0, int_val 1)])
  \<and> dict_to_flatdict example_hashable DictClass [(int_val 0, int_val 1)] None
     = Inr (DictClass, [([int_val 0], int_val 1)])
  \<and> \<not> dict_eq [([int_val 0], int_val 1 :: string pyval)]
         [([int_val 0, int_val 1], int_val 2), ([int_val 0], int_val 1)]
  \<and> flatdict_to_dict example_setitem DefaultDictClass [([int_val 1], int_val 2)]
     = Inr (DefaultDictClass, [(int_val 1, int_val 2)])
  \<and> dict_to_flatdict example_hashable DefaultDictClass [(int_val 1, int_val 2)] None
     = Inl (TypeError ''first argument must be callable or None'')
  \<and> flatdict_to_dict example_setitem CounterClass [([int_val 1], int_val 2)]
     = Inr (CounterClass, [(int_val 1, int_val 2)])
  \<and> dict_to_flatdict example_hashable CounterClass [(int_val 1, int_val 2)] None
     = Inr (CounterClass, [([Leaf (TupleLeaf [int_val 1]), int_val 2], int_val 1)])"
  by (simp add: dict_to_flatdict.simps class_from_items_def dict_from_items_def
        counter_from_items_def counter_get_def flatdict_to_dict_def dict_eq_def
        example_hashable_def)

text \<open>
  The order of the items does change: the items of one nested dictionary come
  together. Two objects of class \<^verbatim>\<open>OrderedDict\<close> with the same items in another
  order are not equal in Python.
\<close>

lemma flatdict_reflatten_item_order:
  "flatdict_to_dict example_setitem OrderedDictClass
      [([int_val 0, int_val 7], int_val 1), ([int_val 1], int_val 2),
       ([int_val 0, int_val 8], int_val 3)]
     = Inr (OrderedDictClass,
         [(int_val 0, Dict OrderedDictClass [(int_val 7, int_val 1), (int_val 8, int_val 3)]),
          (int_val 1, int_val 2)])
  \<and> dict_to_flatdict example_hashable OrderedDictClass
      [(int_val 0, Dict OrderedDictClass [(int_val 7, int_val 1), (int_val 8, int_val 3)]),
       (int_val 1, int_val 2)] None
     = Inr (OrderedDictClass,
         [([int_val 0, int_val 7], int_val 1), ([int_val 0, int_val 8], int_val 3),
          ([int_val 1], int_val 2)])"
  by (simp add: dict_to_flatdict.simps class_from_items_def dict_from_items_def
        flatdict_to_dict_def)

text \<open>
  The other conditions on the key tuples are needed as well. An empty key tuple
  raises. In the other order of two clashing items the shorter key is stored first
  and the longer one meets the leaf: with one further key the value is assigned into
  the leaf, which an integer refuses and a list accepts for an index in range; with
  more keys \<^verbatim>\<open>setdefault\<close> is looked up on the leaf.
\<close>

lemma flatdict_to_dict_empty_key:
  "flatdict_to_dict setitem typ (([], v) # rest) = Inl (IndexError ''tuple index out of range'')"
  by (simp add: flatdict_to_dict_def)

lemma flatdict_to_dict_leaf_on_path:
  "flatdict_to_dict setitem typ [([k], Leaf (IntLeaf n)), ([k, k'], v)]
     = Inl (TypeError ''object does not support item assignment'')"
  by (simp add: flatdict_to_dict_def leaf_setitem_def)

lemma flatdict_to_dict_assigns_into_leaf:
  "setitem a k' v = Inr a' \<Longrightarrow>
   flatdict_to_dict setitem typ [([k], Leaf (Atom a)), ([k, k'], v)]
     = Inr (typ, [(k, Leaf (Atom a'))])"
  by (simp add: flatdict_to_dict_def leaf_setitem_def)

lemma flatdict_to_dict_leaf_before_path:
  "flatdict_to_dict setitem typ [([k], Leaf l), ([k, k', k''], v)]
     = Inl (AttributeError ''object has no attribute setdefault'')"
  by (simp add: flatdict_to_dict_def)

section \<open>Extracting instances\<close>

lemma map_of_dict_setitem_other: "t \<noteq> k \<Longrightarrow> map_of (dict_setitem d k v) t = map_of d t"
  by (induction d) auto

lemma getitem_append:
  "defaultdict_getitem (defaultdict_append ret k obj) t =
     (if t = k then defaultdict_getitem ret k @ [obj] else defaultdict_getitem ret t)"
  by (simp add: defaultdict_getitem_def defaultdict_append_def map_of_dict_setitem
      map_of_dict_setitem_other)

lemma keys_append: "fst ` set (defaultdict_append ret k obj) = insert k (fst ` set ret)"
  by (simp add: defaultdict_append_def keys_dict_setitem)

lemma getitem_types_loop:
  "distinct types \<Longrightarrow>
     defaultdict_getitem (extract_types_loop isinstance obj types ret) t =
       defaultdict_getitem ret t @ (if t \<in> set types \<and> isinstance obj t then [obj] else [])"
proof (induction types arbitrary: ret)
  case Nil
  then show ?case by simp
next
  case (Cons ty types)
  then show ?case by (auto simp: getitem_append)
qed

lemma keys_types_loop:
  "fst ` set (extract_types_loop isinstance obj types ret) =
     fst ` set ret \<union> {t \<in> set types. isinstance obj t}"
proof (induction types arbitrary: ret)
  case Nil
  then show ?case by simp
next
  case (Cons ty types)
  show ?case by (simp add: Cons.IH keys_append) blast
qed

lemma getitem_objects_loop:
  "distinct types \<Longrightarrow>
     defaultdict_getitem (extract_objects_loop isinstance objects types ret) t =
       defaultdict_getitem ret t
         @ (if t \<in> set types then filter (\<lambda>obj. isinstance obj t) objects else [])"
proof (induction objects arbitrary: ret)
  case Nil
  then show ?case by simp
next
  case (Cons obj objects)
  then show ?case by (simp add: getitem_types_loop)
qed

lemma keys_objects_loop:
  "fst ` set (extract_objects_loop isinstance objects types ret) =
     fst ` set ret \<union> {t \<in> set types. \<exists>obj \<in> set objects. isinstance obj t}"
proof (induction objects arbitrary: ret)
  case Nil
  then show ?case by simp
next
  case (Cons obj objects)
  show ?case by (simp add: Cons.IH keys_types_loop) blast
qed

lemma getitem_empty: "defaultdict_getitem [] t = []"
  by (simp add: defaultdict_getitem_def)

lemma extract_objects_loop_no_types: "extract_objects_loop isinstance objects [] ret = ret"
  by (induction objects arbitrary: ret) simp_all

text \<open>
  C8, as amended. With exactly one requested type, given as a single type or as a
  one-element tuple, \<^verbatim>\<open>extract_instances\<close> returns the list of the objects that are
  instances of that type, in their original order. With a tuple of two or more
  pairwise different types it returns the \<^verbatim>\<open>defaultdict\<close>, and subscripting it with
  any requested type gives the list of the objects that are instances of that type, in
  their original order; an object that is an instance of several requested types is
  in the list of each. The keys it holds are the requested types that at least one
  object is an instance of; the subscript gives the empty list for the others. With
  the empty tuple it returns the empty \<^verbatim>\<open>defaultdict\<close>.
\<close>

theorem extract_instances_by_type:
  "extract_instances isinstance objects (Single t)
     = InstanceList (filter (\<lambda>obj. isinstance obj t) objects)
   \<and> extract_instances isinstance objects (Seq [t])
     = InstanceList (filter (\<lambda>obj. isinstance obj t) objects)
   \<and> extract_instances isinstance objects (Seq []) = InstanceDict []
   \<and> (distinct types \<and> 2 \<le> length types \<longrightarrow>
        (\<exists>ret. extract_instances isinstance objects (Seq types) = InstanceDict ret
           \<and> (\<forall>t \<in> set types.
                 defaultdict_getitem ret t = filter (\<lambda>obj. isinstance obj t) objects)
           \<and> fst ` set ret = {t \<in> set types. \<exists>obj \<in> set objects. isinstance obj t}))"
proof (intro conjI impI)
  have "distinct [t]" by simp
  from getitem_objects_loop [OF this, of isinstance objects "[]" t]
  have g: "defaultdict_getitem (extract_objects_loop isinstance objects [t] []) t
      = filter (\<lambda>obj. isinstance obj t) objects"
    by (simp add: getitem_empty)
  from g show "extract_instances isinstance objects (Single t)
     = InstanceList (filter (\<lambda>obj. isinstance obj t) objects)"
    by (simp add: extract_instances_def ensure_iterable_def)
  from g show "extract_instances isinstance objects (Seq [t])
     = InstanceList (filter (\<lambda>obj. isinstance obj t) objects)"
    by (simp add: extract_instances_def ensure_iterable_def)
  show "extract_instances isinstance objects (Seq []) = InstanceDict []"
    by (simp add: extract_instances_def ensure_iterable_def extract_objects_loop_no_types)
next
  assume h: "distinct types \<and> 2 \<le> length types"
  let ?ret = "extract_objects_loop isinstance objects types []"
  from h obtain a b rest where "types = a # b # rest"
    by (cases types; cases "tl types") auto
  then have r: "extract_instances isinstance objects (Seq types) = InstanceDict ?ret"
    by (simp add: extract_instances_def ensure_iterable_def)
  from h have g: "\<forall>t \<in> set types.
      defaultdict_getitem ?ret t = filter (\<lambda>obj. isinstance obj t) objects"
    by (simp add: getitem_objects_loop getitem_empty)
  have k: "fst ` set ?ret = {t \<in> set types. \<exists>obj \<in> set objects. isinstance obj t}"
    by (simp add: keys_objects_loop)
  from r g k show "\<exists>ret. extract_instances isinstance objects (Seq types) = InstanceDict ret
           \<and> (\<forall>t \<in> set types.
                 defaultdict_getitem ret t = filter (\<lambda>obj. isinstance obj t) objects)
           \<and> fst ` set ret = {t \<in> set types. \<exists>obj \<in> set objects. isinstance obj t}"
    by blast
qed

theorem extract_instances_by_type_witness:
  "extract_instances example_isinstance [Inr ''a'', Inl 1, Inr ''b'', Inl 2] (Single IntType)
     = InstanceList [Inl 1, Inl 2]
   \<and> extract_instances example_isinstance [Inr ''a'', Inl 1, Inr ''b'', Inl 2] (Seq [IntType])
     = InstanceList [Inl 1, Inl 2]
   \<and> distinct [StrType, ObjectType] \<and> 2 \<le> length [StrType, ObjectType]
   \<and> extract_instances example_isinstance [Inr ''a'', Inl 1, Inr ''b'', Inl 2]
        (Seq [StrType, ObjectType])
     = InstanceDict [(StrType, [Inr ''a'', Inr ''b'']),
                     (ObjectType, [Inr ''a'', Inl 1, Inr ''b'', Inl 2])]"
  using extract_instances_by_type [of example_isinstance
      "[Inr ''a'', Inl 1, Inr ''b'', Inl 2]" IntType "[StrType, ObjectType]"]
  by (simp add: extract_instances_def ensure_iterable_def defaultdict_append_def
      defaultdict_getitem_def)

text \<open>
  C8 as stated fails for a tuple that names a type twice: the inner loop meets the
  type twice and appends each matching object twice.
  \<^verbatim>\<open>extract_instances([1], (int, int))\<close> is \<^verbatim>\<open>{int: [1, 1]}\<close>, and the list of
  the objects matching \<^verbatim>\<open>int\<close> is \<^verbatim>\<open>[1]\<close>.
\<close>

theorem extract_instances_repeated_type:
  "\<not> (\<exists>ret. extract_instances example_isinstance [Inl 1] (Seq [IntType, IntType])
              = InstanceDict ret
          \<and> defaultdict_getitem ret IntType
              = filter (\<lambda>obj. example_isinstance obj IntType) [Inl 1])"
  by (simp add: extract_instances_def ensure_iterable_def defaultdict_append_def
      defaultdict_getitem_def)

section \<open>Batched iteration\<close>

lemma islice_list_next: "islice list_next n xs = (take n xs, drop n xs)"
  by (induction n arbitrary: xs) (auto simp: list_next_def split: list.splits)

lemma batched_iterable_zero_step: "batched_iterable_next maxsize nxt 0 s = Inr None"
  by (simp add: batched_iterable_next_def)

lemma batched_iterable_next_list_pos:
  "0 < bsize \<Longrightarrow> bsize \<le> int maxsize \<Longrightarrow>
     batched_iterable_next maxsize list_next bsize xs =
       (if xs = [] then Inr None
        else Inr (Some (take (nat bsize) xs, drop (nat bsize) xs)))"
  by (simp add: batched_iterable_next_def islice_list_next)

lemma batched_iterable_unfold:
  "0 < bsize \<Longrightarrow> bsize \<le> int maxsize \<Longrightarrow>
     batched_iterable maxsize xs bsize =
       (if xs = [] then Inr []
        else (case batched_iterable maxsize (drop (nat bsize) xs) bsize of
                Inl e \<Rightarrow> Inl e
              | Inr batches \<Rightarrow> Inr (take (nat bsize) xs # batches)))"
  by (subst batched_iterable.simps) (simp add: batched_iterable_next_list_pos)

lemma batched_iterable_returns:
  assumes "0 < bsize" and "bsize \<le> int maxsize"
  shows "\<exists>batches. batched_iterable maxsize xs bsize = Inr batches"
proof (induction "length xs" arbitrary: xs rule: less_induct)
  case less
  show ?case
  proof (cases "xs = []")
    case True
    with assms show ?thesis by (simp add: batched_iterable_unfold)
  next
    case False
    with assms(1) have "length (drop (nat bsize) xs) < length xs" by simp
    from less.hyps [OF this]
    obtain batches where "batched_iterable maxsize (drop (nat bsize) xs) bsize = Inr batches"
      by blast
    with False assms show ?thesis by (simp add: batched_iterable_unfold)
  qed
qed

lemma batched_iterable_props:
  assumes "0 < bsize" and "bsize \<le> int maxsize"
    and "batched_iterable maxsize xs bsize = Inr batches"
  shows "concat batches = xs
       \<and> list_all (\<lambda>b. 1 \<le> length b \<and> length b \<le> nat bsize) batches
       \<and> (\<forall>i. Suc i < length batches \<longrightarrow> length (batches ! i) = nat bsize)
       \<and> (batches = [] \<longleftrightarrow> xs = [])"
  using assms(3)
proof (induction "length xs" arbitrary: xs batches rule: less_induct)
  case less
  let ?ok = "\<lambda>b :: 'a list. 1 \<le> length b \<and> length b \<le> nat bsize"
  show ?case
  proof (cases "xs = []")
    case True
    with less.prems assms(1,2) show ?thesis by (simp add: batched_iterable_unfold)
  next
    case False
    define rest where "rest = drop (nat bsize) xs"
    from batched_iterable_returns [OF assms(1,2)]
    obtain bs' where bs': "batched_iterable maxsize rest bsize = Inr bs'" by blast
    with False less.prems assms(1,2) have batches: "batches = take (nat bsize) xs # bs'"
      by (simp add: batched_iterable_unfold rest_def)
    from False assms(1) have "length rest < length xs" by (simp add: rest_def)
    from less.hyps [OF this bs']
    have ih: "concat bs' = rest" "list_all ?ok bs'"
      "\<And>i. Suc i < length bs' \<Longrightarrow> length (bs' ! i) = nat bsize"
      "bs' = [] \<longleftrightarrow> rest = []"
      by auto
    have c1: "concat batches = xs" by (simp add: batches ih(1) rest_def)
    from False have "1 \<le> length xs" by (cases xs) auto
    with assms(1) have "?ok (take (nat bsize) xs)" by simp
    with ih(2) have c2: "list_all ?ok batches" by (simp add: batches)
    have c3: "length (batches ! i) = nat bsize" if "Suc i < length batches" for i
    proof (cases i)
      case 0
      with that have "bs' \<noteq> []" by (auto simp: batches)
      with ih(4) have "rest \<noteq> []" by simp
      then have "nat bsize < length xs" by (simp add: rest_def)
      with 0 show ?thesis by (simp add: batches)
    next
      case (Suc j)
      with that ih(3) [of j] show ?thesis by (simp add: batches)
    qed
    from c1 c2 c3 show ?thesis by (simp add: batches False)
  qed
qed

lemma length_seven: "length xs = 7 \<Longrightarrow> \<exists>a b c d e f g. xs = [a, b, c, d, e, f, g]"
  by (auto simp: eval_nat_numeral length_Suc_conv)

lemma batched_iterable_seven_by_three:
  "3 \<le> int maxsize \<Longrightarrow>
     batched_iterable maxsize [a, b, c, d, e, f, g] 3 = Inr [[a, b, c], [d, e, f], [g]]"
  by (simp add: batched_iterable_unfold)

text \<open>
  C9, as amended. Over a finite sequence \<open>xs\<close> and a positive batch size that is at
  most \<^verbatim>\<open>sys.maxsize\<close>, the generator finishes without an error after finitely many
  batches. Their concatenation is \<open>xs\<close> (order is kept and nothing is lost or
  repeated), every batch has between 1 and \<open>bsize\<close> elements, every batch but the
  last has exactly \<open>bsize\<close>, an empty sequence gives no batch, and any sequence of 7
  elements with size 3 gives batches of 3, 3 and 1 elements.
\<close>

theorem batched_iterable_batches:
  assumes "0 < bsize" and "bsize \<le> int maxsize"
  shows "\<exists>batches. batched_iterable maxsize xs bsize = Inr batches
           \<and> concat batches = xs
           \<and> list_all (\<lambda>b. 1 \<le> length b \<and> length b \<le> nat bsize) batches
           \<and> (\<forall>i. Suc i < length batches \<longrightarrow> length (batches ! i) = nat bsize)
           \<and> (xs = [] \<longrightarrow> batches = [])
           \<and> (length xs = 7 \<and> bsize = 3 \<longrightarrow> map length batches = [3, 3, 1])"
proof -
  from batched_iterable_returns [OF assms]
  obtain batches where b: "batched_iterable maxsize xs bsize = Inr batches" by blast
  from batched_iterable_props [OF assms b]
  have p1: "concat batches = xs"
    and p2: "list_all (\<lambda>b. 1 \<le> length b \<and> length b \<le> nat bsize) batches"
    and p3: "\<forall>i. Suc i < length batches \<longrightarrow> length (batches ! i) = nat bsize"
    and p4: "batches = [] \<longleftrightarrow> xs = []"
    by simp_all
  have p5: "length xs = 7 \<and> bsize = 3 \<longrightarrow> map length batches = [3, 3, 1]"
  proof
    assume h: "length xs = 7 \<and> bsize = 3"
    then have "length xs = 7" by simp
    from length_seven [OF this] obtain a b c d e f g where "xs = [a, b, c, d, e, f, g]"
      by blast
    with b h assms(2) have "batches = [[a, b, c], [d, e, f], [g]]"
      by (simp add: batched_iterable_seven_by_three)
    then show "map length batches = [3, 3, 1]" by simp
  qed
  from p4 have p4': "xs = [] \<longrightarrow> batches = []" by simp
  show ?thesis
    apply (rule exI [of _ batches])
    apply (intro conjI)
         apply (rule b)
        apply (rule p1)
       apply (rule p2)
      apply (rule p3)
     apply (rule p4')
    apply (rule p5)
    done
qed

theorem batched_iterable_batches_witness:
  "(0::int) < 3 \<and> (3::int) \<le> int 9223372036854775807
   \<and> (\<exists>batches. batched_iterable 9223372036854775807 [10, 20, 30, 40, 50, 60, 70 :: nat] 3
           = Inr batches
         \<and> concat batches = [10, 20, 30, 40, 50, 60, 70]
         \<and> map length batches = [3, 3, 1])
   \<and> (\<exists>batches. batched_iterable 9223372036854775807 ([] :: nat list) 3 = Inr batches
         \<and> batches = [])"
proof -
  have h: "(0::int) < 3" by simp
  have m: "(3::int) \<le> int 9223372036854775807" by simp
  let ?xs = "[10, 20, 30, 40, 50, 60, 70 :: nat]"
  from batched_iterable_batches [OF h m, of ?xs]
  obtain bs where bs: "batched_iterable 9223372036854775807 ?xs 3 = Inr bs
           \<and> concat bs = ?xs
           \<and> list_all (\<lambda>b. 1 \<le> length b \<and> length b \<le> nat 3) bs
           \<and> (\<forall>i. Suc i < length bs \<longrightarrow> length (bs ! i) = nat 3)
           \<and> (?xs = [] \<longrightarrow> bs = [])
           \<and> (length ?xs = 7 \<and> (3::int) = 3 \<longrightarrow> map length bs = [3, 3, 1])" ..
  then have "batched_iterable 9223372036854775807 ?xs 3 = Inr bs \<and> concat bs = ?xs
      \<and> map length bs = [3, 3, 1]"
    by simp
  then have a: "\<exists>batches. batched_iterable 9223372036854775807 ?xs 3 = Inr batches
         \<and> concat batches = ?xs \<and> map length batches = [3, 3, 1]" ..
  from batched_iterable_batches [OF h m, of "[] :: nat list"]
  obtain cs where cs: "batched_iterable 9223372036854775807 ([] :: nat list) 3 = Inr cs
           \<and> concat cs = []
           \<and> list_all (\<lambda>b. 1 \<le> length b \<and> length b \<le> nat 3) cs
           \<and> (\<forall>i. Suc i < length cs \<longrightarrow> length (cs ! i) = nat 3)
           \<and> (([] :: nat list) = [] \<longrightarrow> cs = [])
           \<and> (length ([] :: nat list) = 7 \<and> (3::int) = 3 \<longrightarrow> map length cs = [3, 3, 1])" ..
  then have "batched_iterable 9223372036854775807 ([] :: nat list) 3 = Inr cs \<and> cs = []"
    by simp
  then have b: "\<exists>batches. batched_iterable 9223372036854775807 ([] :: nat list) 3
      = Inr batches \<and> batches = []" ..
  from h m a b show ?thesis by (intro conjI)
qed

text \<open>
  C9 as stated fails for a batch size above \<^verbatim>\<open>sys.maxsize\<close>: \<^verbatim>\<open>islice\<close> refuses
  the stop, and the first resumption of the generator raises \<^verbatim>\<open>ValueError\<close>
  instead of yielding a batch. On a 64-bit build, where \<^verbatim>\<open>sys.maxsize\<close> is
  \<open>2 ^ 63 - 1\<close>, the size \<open>2 ^ 63\<close> is such a size.
\<close>

theorem batched_iterable_size_above_maxsize:
  "(0::int) < 9223372036854775808
   \<and> batched_iterable 9223372036854775807 [1 :: nat] 9223372036854775808
      = Inl (ValueError
          ''Stop argument for islice() must be None or an integer: 0 <= x <= sys.maxsize.'')"
  by (subst batched_iterable.simps) (simp add: batched_iterable_next_def)

text \<open>
  C10. With batch size 0 the first slice is empty whatever the iterator holds, also for
  an endless one: the first resumption of the generator leaves the loop, with no batch
  and no error. Over any finite sequence the consumer therefore receives no batch.
\<close>

theorem batched_iterable_size_zero:
  "batched_iterable_next maxsize nxt 0 s = Inr None \<and> batched_iterable maxsize xs 0 = Inr []"
  by (subst batched_iterable.simps) (simp add: batched_iterable_zero_step)

theorem batched_iterable_size_zero_witness:
  "batched_iterable_next 9223372036854775807 list_next 0 [1, 2, 3 :: nat] = Inr None
   \<and> batched_iterable 9223372036854775807 [1, 2, 3 :: nat] 0 = Inr []"
  using batched_iterable_size_zero
    [of 9223372036854775807 list_next "[1, 2, 3 :: nat]" "[1, 2, 3 :: nat]"]
  by simp

section \<open>Reading a variable\<close>

text \<open>
  C7. When the remote lookup reports that there is no variable of the name,
  \<^verbatim>\<open>variables.get\<close> returns the default it was given, which is \<open>None\<close> when the
  caller gave none, and raises nothing; when the lookup returns a variable, it returns
  exactly the stored value of that variable; when the lookup raises, the same exception
  leaves \<^verbatim>\<open>variables.get\<close>. One lookup is made in each case.
\<close>

theorem variables_get_outcomes:
  "(read_variable_by_name name w = (Inr None, w')
      \<longrightarrow> variables_get read_variable_by_name name dflt w = (Inr dflt, w'))
   \<and> (read_variable_by_name name w = (Inr (Some var), w')
      \<longrightarrow> variables_get read_variable_by_name name dflt w = (Inr (Some (var_value var)), w'))
   \<and> (read_variable_by_name name w = (Inl e, w')
      \<longrightarrow> variables_get read_variable_by_name name dflt w = (Inl e, w'))"
  by (simp add: variables_get_def get_variable_by_name_def)

theorem variables_get_outcomes_witness:
  "variables_get example_store ''missing'' (Some ''fallback'') 0 = (Inr (Some ''fallback''), 1)
   \<and> variables_get example_store ''missing'' None 0 = (Inr None, 1)
   \<and> variables_get example_store ''my_var'' (Some ''fallback'') 0 = (Inr (Some ''42''), 1)
   \<and> variables_get example_store ''down'' (Some ''fallback'') 0
        = (Inl (OtherError ''connection refused''), 1)"
  using variables_get_outcomes [of example_store "''missing''" 0 1 "Some ''fallback''"]
    variables_get_outcomes [of example_store "''missing''" 0 1 None]
    variables_get_outcomes [of example_store "''my_var''" 0 1 _
        "\<lparr>var_name = ''my_var'', var_value = ''42''\<rparr>"]
    variables_get_outcomes [of example_store "''down''" 0 1 _ _
        "OtherError ''connection refused''"]
  by (simp add: example_store_def)

section \<open>Constructing and invoking a flow\<close>











text \<open>
  C5. Constructing a flow without \<^verbatim>\<open>fn\<close> raises \<^verbatim>\<open>TypeError\<close>, the exception
  with which the code reports invalid input, and so does constructing it with any value
  that is not callable, an integer for one; no flow is returned in either case.
\<close>

theorem Flow_init_rejects_missing_or_noncallable:
  "(\<exists>msg. Flow_init file_hash parameter_schema name PyNone version executor description tags
            = Inl (TypeError msg))
   \<and> (\<not> callable fn \<longrightarrow>
        (\<exists>msg. Flow_init file_hash parameter_schema name fn version executor description tags
            = Inl (TypeError msg)))"
  by (cases fn) (auto simp: Flow_init_def)

theorem Flow_init_rejects_missing_or_noncallable_witness:
  "\<not> callable (PyInt 5 :: (int list, (string \<times> int) list, int, string list) pyobject)
   \<and> (Flow_init example_file_hash example_parameter_schema None
         (PyNone :: (int list, (string \<times> int) list, int, string list) pyobject)
         None None None None
        :: pyerr + (int list, (string \<times> int) list, int, string list, unit, string list) flow)
      = Inl (TypeError ''__init__() missing 1 required argument: fn'')
   \<and> (Flow_init example_file_hash example_parameter_schema None (PyInt 5) None None None None
        :: pyerr + (int list, (string \<times> int) list, int, string list, unit, string list) flow)
      = Inl (TypeError ''fn must be callable'')"
  using Flow_init_rejects_missing_or_noncallable
    [of example_file_hash example_parameter_schema None None "None :: unit option" None None
      "PyInt 5 :: (int list, (string \<times> int) list, int, string list) pyobject"]
  by (simp add: Flow_init_def)









end
